theory Spec2Isabelle
  imports Complex_Main "HOL-Library.Sublist" "HOL-Library.Word"
begin

section \<open>JavaScript values of the upload handler\<close>

text \<open>
  The spreadsheet upload handler \<open>app.post('/api/candidates/upload')\<close> works on the cell
  values that \<open>xlsx.utils.sheet_to_json(sheet, {header: 1})\<close> returns. A cell is a string,
  a number or a boolean; a blank cell is a hole of the row array, read as \<open>undefined\<close>.
  Strings are lists of code units below 256 (Latin-1). Numeric cells are integers, of
  absolute value below \<open>10^21\<close>, which \<open>String\<close> prints in plain decimal: the source
  prints other numbers with the float-to-string algorithm, which is outside this
  development.
\<close>

datatype jsval = Undef | Str string | Num int | Bool bool

text \<open>JavaScript truthiness, as used by \<open>!x\<close>, \<open>x || y\<close> and \<open>if (x)\<close>.\<close>

fun truthy :: "jsval \<Rightarrow> bool" where
  "truthy Undef = False"
| "truthy (Str s) = (s \<noteq> [])"
| "truthy (Num n) = (n \<noteq> 0)"
| "truthy (Bool b) = b"

definition js_or :: "jsval \<Rightarrow> jsval \<Rightarrow> jsval" where
  "js_or a b = (if truthy a then a else b)"

definition digit_char :: "nat \<Rightarrow> char" where
  "digit_char d = (if d < 10 then ''0123456789'' ! d else CHR ''?'')"

function show_nat :: "nat \<Rightarrow> string" where
  "show_nat n = (if n < 10 then [digit_char n] else show_nat (n div 10) @ [digit_char (n mod 10)])"
  by pat_completeness auto
termination
  by (relation "measure id") auto

declare show_nat.simps [simp del]

definition show_int :: "int \<Rightarrow> string" where
  "show_int i = (if i < 0 then CHR ''-'' # show_nat (nat (- i)) else show_nat (nat i))"

text \<open>\<open>String(v)\<close>, also the conversion of a template literal \<open>${v}\<close>.\<close>

fun js_String :: "jsval \<Rightarrow> string" where
  "js_String Undef = ''undefined''"
| "js_String (Str s) = s"
| "js_String (Num n) = show_int n"
| "js_String (Bool b) = (if b then ''true'' else ''false'')"

subsection \<open>Characters and strings\<close>

definition is_digit :: "char \<Rightarrow> bool" where
  "is_digit c = (48 \<le> (of_char c :: nat) \<and> (of_char c :: nat) \<le> 57)"

definition is_lower :: "char \<Rightarrow> bool" where
  "is_lower c = (97 \<le> (of_char c :: nat) \<and> (of_char c :: nat) \<le> 122)"

definition is_upper :: "char \<Rightarrow> bool" where
  "is_upper c = (65 \<le> (of_char c :: nat) \<and> (of_char c :: nat) \<le> 90)"

text \<open>
  \<open>toLowerCase()\<close> on one code unit: A-Z, and the Latin-1 capitals C0-DE other than the
  multiplication sign D7, move up by 32.
\<close>

definition lower_char :: "char \<Rightarrow> char" where
  "lower_char c =
     (let n = (of_char c :: nat)
      in if (65 \<le> n \<and> n \<le> 90) \<or> (192 \<le> n \<and> n \<le> 222 \<and> n \<noteq> 215)
         then char_of (n + 32) else c)"

definition toLowerCase :: "string \<Rightarrow> string" where
  "toLowerCase s = map lower_char s"

text \<open>\<open>s.includes(k)\<close>: \<open>k\<close> occurs in \<open>s\<close> as a contiguous run.\<close>

fun str_includes :: "string \<Rightarrow> string \<Rightarrow> bool" where
  "str_includes [] k = (k = [])"
| "str_includes (c # cs) k = (prefix k (c # cs) \<or> str_includes cs k)"

section \<open>Header locator\<close>

definition keywords_list :: "string list" where
  "keywords_list = [''name'', ''email'', ''phone'', ''contact'', ''mobile'', ''experience'', ''age'']"

text \<open>\<open>String(cell || '').toLowerCase().replace(/[^a-z0-9]/g, '')\<close>\<close>

definition normalize_cell :: "jsval \<Rightarrow> string" where
  "normalize_cell cell =
     filter (\<lambda>c. is_lower c \<or> is_digit c)
       (toLowerCase (js_String (js_or cell (Str ''''))))"

definition normalizedRow :: "jsval list \<Rightarrow> string list" where
  "normalizedRow row = map normalize_cell row"

text \<open>\<open>normalizedRow.filter(cell => keywords.some(k => cell.includes(k))).length\<close>\<close>

definition matchCount :: "jsval list \<Rightarrow> nat" where
  "matchCount row =
     length (filter (\<lambda>cell. list_ex (\<lambda>k. str_includes cell k) keywords_list) (normalizedRow row))"

text \<open>
  The scan \<open>for (let i = 0; i < Math.min(rows.length, 20); i++)\<close>, leaving at the first
  row with \<open>matchCount >= 2\<close>. \<open>None\<close> is \<open>headerRowIndex === -1\<close>; otherwise the result
  is \<open>(headerRowIndex, headers)\<close>.
\<close>

function scan_header :: "nat \<Rightarrow> jsval list list \<Rightarrow> (nat \<times> string list) option" where
  "scan_header i rows =
     (if i < min (length rows) 20
      then (if matchCount (rows ! i) \<ge> 2
            then Some (i, normalizedRow (rows ! i))
            else scan_header (i + 1) rows)
      else None)"
  by pat_completeness auto
termination
  by (relation "measure (\<lambda>(i, rows). min (length rows) 20 - i)") auto

declare scan_header.simps [simp del]

definition find_header :: "jsval list list \<Rightarrow> (nat \<times> string list) option" where
  "find_header rows = scan_header 0 rows"

section \<open>Regular expressions of the fallback extractor\<close>

text \<open>
  The four patterns of the composite-text fallback are sequences of atoms: a run of
  character classes, a quantified character class (greedy or lazy), an alternation, or
  the end of the input. \<open>alts a s\<close> lists, in the order in which the backtracking matcher
  of \<open>String.prototype.match\<close> tries them, the ways atom \<open>a\<close> matches at the start of \<open>s\<close>,
  each as (matched text, rest). \<open>run\<close> matches a sequence of atoms depth first over
  these choices, and \<open>re_match\<close> tries the start positions from left to right, so the
  result is the match a non-global \<open>s.match(re)\<close> returns: one matched piece for each
  atom.
\<close>

datatype atom =
    Seq "(char \<Rightarrow> bool) list"
  | Rep "char \<Rightarrow> bool" nat "nat option" bool
  | Or atom atom
  | Eoi

fun alts :: "atom \<Rightarrow> string \<Rightarrow> (string \<times> string) list" where
  "alts (Seq ps) s =
     (if length ps \<le> length s \<and> list_all2 (\<lambda>p c. p c) ps (take (length ps) s)
      then [(take (length ps) s, drop (length ps) s)] else [])"
| "alts (Rep p lo hi greedy) s =
     (let m = length (takeWhile p s);
          top = (case hi of None \<Rightarrow> m | Some h \<Rightarrow> min h m);
          ks = [lo ..< Suc top]
      in map (\<lambda>k. (take k s, drop k s)) (if greedy then rev ks else ks))"
| "alts (Or a b) s = alts a s @ alts b s"
| "alts Eoi s = (if s = [] then [([], [])] else [])"

fun run :: "atom list \<Rightarrow> string \<Rightarrow> (string list \<times> string) option"
  and try_alts :: "atom list \<Rightarrow> (string \<times> string) list \<Rightarrow> (string list \<times> string) option" where
  "run [] s = Some ([], s)"
| "run (a # as) s = try_alts as (alts a s)"
| "try_alts as [] = None"
| "try_alts as ((m, r) # xs) =
     (case run as r of Some (ms, r') \<Rightarrow> Some (m # ms, r') | None \<Rightarrow> try_alts as xs)"

fun re_match :: "atom list \<Rightarrow> string \<Rightarrow> string list option" where
  "re_match re [] = map_option fst (run re [])"
| "re_match re (c # cs) =
     (case run re (c # cs) of Some (ms, r) \<Rightarrow> Some ms | None \<Rightarrow> re_match re cs)"

text \<open>Character classes. \<open>\s\<close> and \<open>trim()\<close> share the white space of Latin-1.\<close>

definition is_space :: "char \<Rightarrow> bool" where
  "is_space c = ((of_char c :: nat) \<in> {9, 10, 11, 12, 13, 32, 160})"

definition is_alpha :: "char \<Rightarrow> bool" where
  "is_alpha c = (is_lower c \<or> is_upper c)"

definition is_alnum :: "char \<Rightarrow> bool" where
  "is_alnum c = (is_alpha c \<or> is_digit c)"

text \<open>\<open>.\<close> matches every code unit except the line terminators.\<close>

definition is_dot :: "char \<Rightarrow> bool" where
  "is_dot c = ((of_char c :: nat) \<notin> {10, 13})"

text \<open>A literal under the \<open>i\<close> flag; the letters of the patterns are all ASCII.\<close>

definition lit_i :: "string \<Rightarrow> atom" where
  "lit_i w = Seq (map (\<lambda>x c. lower_char c = lower_char x \<and> (of_char c :: nat) < 128) w)"

definition chr :: "char \<Rightarrow> atom" where
  "chr x = Seq [\<lambda>c. c = x]"

text \<open>\<open>/[a-zA-Z0-9._%+-]+@[a-zA-Z0-9.-]+\.[a-zA-Z]{2,}/\<close>\<close>

definition email_re :: "atom list" where
  "email_re =
     [Rep (\<lambda>c. is_alnum c \<or> c \<in> set ''._%+-'') 1 None True,
      chr CHR ''@'',
      Rep (\<lambda>c. is_alnum c \<or> c \<in> set ''.-'') 1 None True,
      chr CHR ''.'',
      Rep is_alpha 2 None True]"

text \<open>\<open>/\+?[0-9][0-9\-\s]{8,15}/\<close>\<close>

definition phone_re :: "atom list" where
  "phone_re =
     [Rep (\<lambda>c. c = CHR ''+'') 0 (Some 1) True,
      Seq [is_digit],
      Rep (\<lambda>c. is_digit c \<or> c = CHR ''-'' \<or> is_space c) 8 (Some 15) True]"

text \<open>\<open>/Name:\s*(.*?)\s*(?:Age|Location|University|Degree|$)/i\<close>; the group is piece 2.\<close>

definition name_re :: "atom list" where
  "name_re =
     [lit_i ''Name:'',
      Rep is_space 0 None True,
      Rep is_dot 0 None False,
      Rep is_space 0 None True,
      Or (lit_i ''Age'') (Or (lit_i ''Location'') (Or (lit_i ''University'')
        (Or (lit_i ''Degree'') Eoi)))]"

text \<open>\<open>/Age:\s*([\d.]+)/i\<close>; the group is piece 2.\<close>

definition age_re :: "atom list" where
  "age_re =
     [lit_i ''Age:'',
      Rep is_space 0 None True,
      Rep (\<lambda>c. is_digit c \<or> c = CHR ''.'') 1 None True]"

text \<open>\<open>s.trim()\<close>\<close>

definition trim :: "string \<Rightarrow> string" where
  "trim s = rev (dropWhile is_space (rev (dropWhile is_space s)))"

text \<open>\<open>xs.join(' ')\<close>\<close>

fun join_sp :: "string list \<Rightarrow> string" where
  "join_sp [] = []"
| "join_sp [x] = x"
| "join_sp (x # y # ys) = x @ '' '' @ join_sp (y # ys)"

section \<open>Draft of one row: column mapping and composite-text fallback\<close>

text \<open>
  \<open>item\<close> is the object built by \<open>rowData.forEach((val, idx) => { if (headers[idx])
  item[headers[idx]] = val })\<close>: an association list in insertion order, a repeated
  header overwriting the value in place. \<open>forEach\<close> passes over the holes of the row.
\<close>

type_synonym item = "(string \<times> jsval) list"

fun set_prop :: "item \<Rightarrow> string \<Rightarrow> jsval \<Rightarrow> item" where
  "set_prop [] k v = [(k, v)]"
| "set_prop ((k', v') # kvs) k v =
     (if k' = k then (k, v) # kvs else (k', v') # set_prop kvs k v)"

definition get_prop :: "item \<Rightarrow> string \<Rightarrow> jsval" where
  "get_prop it k = (case map_of it k of None \<Rightarrow> Undef | Some v \<Rightarrow> v)"

fun build_item :: "string list \<Rightarrow> jsval list \<Rightarrow> nat \<Rightarrow> item \<Rightarrow> item" where
  "build_item headers [] idx it = it"
| "build_item headers (val # vals) idx it =
     build_item headers vals (idx + 1)
       (if val \<noteq> Undef \<and> idx < length headers \<and> headers ! idx \<noteq> []
        then set_prop it (headers ! idx) val else it)"

record draft =
  d_name :: jsval
  d_email :: jsval
  d_phone :: jsval
  d_exp :: jsval
  d_age :: jsval

text \<open>The synonym chains \<open>item.name || item.candidate || ...\<close>.\<close>

definition map_synonyms :: "item \<Rightarrow> draft" where
  "map_synonyms it =
     \<lparr> d_name = js_or (get_prop it ''name'') (js_or (get_prop it ''candidate'')
         (js_or (get_prop it ''fullname'') (js_or (get_prop it ''applicantname'')
         (get_prop it ''candidatesname'')))),
       d_email = js_or (get_prop it ''email'') (js_or (get_prop it ''emailaddress'')
         (get_prop it ''eaddress'')),
       d_phone = js_or (get_prop it ''phone'') (js_or (get_prop it ''phonenumber'')
         (js_or (get_prop it ''contact'') (js_or (get_prop it ''mobile'')
         (get_prop it ''cell'')))),
       d_exp = js_or (get_prop it ''experienceyears'') (js_or (get_prop it ''yearsofexperience'')
         (js_or (get_prop it ''experience'') (js_or (get_prop it ''totalexperience'')
         (get_prop it ''yearsexperience'')))),
       d_age = js_or (get_prop it ''age'') (js_or (get_prop it ''candidateage'')
         (get_prop it ''ageyrs'')) \<rparr>"

text \<open>\<open>rowData.map(c => String(c || '').trim()).join(' ')\<close>\<close>

definition compositeString :: "jsval list \<Rightarrow> string" where
  "compositeString rowData = join_sp (map (\<lambda>c. trim (js_String (js_or c (Str '''')))) rowData)"

text \<open>
  The deep-parsing fallback, entered when \<open>(!email || !phone) && compositeString.includes(':')\<close>.
  Each of the four matches fills its field under the source's own condition.
\<close>

definition fallback :: "string \<Rightarrow> draft \<Rightarrow> draft" where
  "fallback cs d =
     (if (\<not> truthy (d_email d) \<or> \<not> truthy (d_phone d)) \<and> str_includes cs '':''
      then
        (let email = (case re_match email_re cs of
                        Some ms \<Rightarrow> if \<not> truthy (d_email d) then Str (concat ms) else d_email d
                      | None \<Rightarrow> d_email d);
             phone = (case re_match phone_re cs of
                        Some ms \<Rightarrow> if \<not> truthy (d_phone d) then Str (trim (concat ms)) else d_phone d
                      | None \<Rightarrow> d_phone d);
             name = (case re_match name_re cs of
                       Some ms \<Rightarrow> if \<not> truthy (d_name d) \<or> length (js_String (d_name d)) > 50
                                  then Str (trim (ms ! 2)) else d_name d
                     | None \<Rightarrow> d_name d);
             age = (case re_match age_re cs of
                      Some ms \<Rightarrow> if \<not> truthy (d_age d) then Str (ms ! 2) else d_age d
                    | None \<Rightarrow> d_age d)
         in d\<lparr> d_name := name, d_email := email, d_phone := phone, d_age := age \<rparr>)
      else d)"

definition row_draft :: "string list \<Rightarrow> jsval list \<Rightarrow> draft" where
  "row_draft headers rowData =
     fallback (compositeString rowData) (map_synonyms (build_item headers rowData 0 []))"

section \<open>Image extractor\<close>

text \<open>
  The file system is a map from absolute paths to file contents. The process runs in
  directory \<open>cwd\<close> (written without a trailing slash); \<open>production\<close> is the test
  \<open>process.env.VERCEL || process.env.NODE_ENV === 'production'\<close>. Directories are not
  modelled: the source creates the image directory and swallows a failure to do so.
\<close>

type_synonym byte = "8 word"

type_synonym files = "string \<rightharpoonup> byte list"

type_synonym imap = "nat \<rightharpoonup> string"

record env =
  production :: bool
  cwd :: string

text \<open>
  One entry of \<open>exSheet.getImages()\<close> joined with its media record: the sheet row
  \<open>Math.floor(image.range.tl.row)\<close>, the nominal \<open>img.extension\<close> and \<open>img.buffer\<close>.
\<close>

record image =
  img_row :: nat
  img_extension :: string
  img_buffer :: "byte list"

datatype error = ENOENT string | DuplicateKey nat

text \<open>\<open>buffer[i]\<close>, \<open>undefined\<close> beyond the end of the buffer.\<close>

definition buf_at :: "byte list \<Rightarrow> nat \<Rightarrow> byte option" where
  "buf_at buffer i = (if i < length buffer then Some (buffer ! i) else None)"

text \<open>Buffer signature detection (magic numbers); otherwise the nominal extension stays.\<close>

definition detect_extension :: "string \<Rightarrow> byte list \<Rightarrow> string" where
  "detect_extension extension buffer =
     (if buf_at buffer 0 = Some 0x89 \<and> buf_at buffer 1 = Some 0x50 \<and>
         buf_at buffer 2 = Some 0x4E \<and> buf_at buffer 3 = Some 0x47 then ''png''
      else if buf_at buffer 0 = Some 0xFF \<and> buf_at buffer 1 = Some 0xD8 \<and>
         buf_at buffer 2 = Some 0xFF then ''jpg''
      else if buf_at buffer 0 = Some 0x47 \<and> buf_at buffer 1 = Some 0x49 \<and>
         buf_at buffer 2 = Some 0x46 then ''gif''
      else extension)"

text \<open>\<open>path.join(UPLOADS_DIR_LOCAL, 'candidates')\<close>\<close>

definition imagesDir :: "env \<Rightarrow> string" where
  "imagesDir e = (if production e then ''/tmp/uploads'' else ''uploads'') @ ''/candidates''"

text \<open>How \<open>fs\<close> reads a path: a relative path is taken from the working directory.\<close>

definition resolve :: "env \<Rightarrow> string \<Rightarrow> string" where
  "resolve e p = (case p of [] \<Rightarrow> cwd e | c # cs \<Rightarrow> if c = CHR ''/'' then p else cwd e @ ''/'' @ p)"

text \<open>\<open>photo-${Date.now()}-${row}.${extension}\<close>\<close>

definition fileName :: "nat \<Rightarrow> nat \<Rightarrow> string \<Rightarrow> string" where
  "fileName t row extension = ''photo-'' @ show_nat t @ ''-'' @ show_nat row @ ''.'' @ extension"

text \<open>
  The callback of \<open>exSheet.getImages().forEach\<close> for one image, \<open>t\<close> being the reading of
  \<open>Date.now()\<close>. \<open>fs.statSync\<close> on a path that does not exist throws (\<open>Inl\<close>); the
  \<open>unlinkSync\<close> of the displaced file sits in a \<open>try\<close> with an empty \<open>catch\<close>.
  The existing path is looked up as \<open>path.join(process.cwd(), existingPath)\<close>, the new
  file is written at \<open>path.join(imagesDir, fileName)\<close>.
\<close>

definition image_step :: "env \<Rightarrow> nat \<Rightarrow> image \<Rightarrow> imap \<times> files \<Rightarrow> error + (imap \<times> files)" where
  "image_step e t img st =
     (let imageMap = fst st; fs = snd st;
          row = img_row img;
          buffer = img_buffer img;
          extension = detect_extension (img_extension img) buffer
      in if toLowerCase extension \<in> set [''emf'', ''wmf''] then Inr (imageMap, fs)
         else
           (let imgPath = resolve e (imagesDir e @ ''/'' @ fileName t row extension);
                url = ''/uploads/candidates/'' @ fileName t row extension
            in case imageMap row of
                 None \<Rightarrow> Inr (imageMap(row \<mapsto> url), fs(imgPath \<mapsto> buffer))
               | Some existingPath \<Rightarrow>
                   if existingPath = [] then Inr (imageMap(row \<mapsto> url), fs(imgPath \<mapsto> buffer))
                   else
                     (case fs (cwd e @ existingPath) of
                        None \<Rightarrow> Inl (ENOENT (cwd e @ existingPath))
                      | Some old \<Rightarrow>
                          if length buffer \<le> length old then Inr (imageMap, fs)
                          else Inr (imageMap(row \<mapsto> url),
                                    (fs(cwd e @ existingPath := None))(imgPath \<mapsto> buffer)))))"

text \<open>
  The whole \<open>forEach\<close>: image number \<open>k\<close> reads the clock as \<open>now k\<close>. An exception
  leaves the loop; the files written so far stay.
\<close>

fun extract_images ::
  "env \<Rightarrow> (nat \<Rightarrow> nat) \<Rightarrow> nat \<Rightarrow> image list \<Rightarrow> imap \<Rightarrow> files \<Rightarrow> files \<times> (error + imap)" where
  "extract_images e now k [] imageMap fs = (fs, Inr imageMap)"
| "extract_images e now k (img # rest) imageMap fs =
     (case image_step e (now k) img (imageMap, fs) of
        Inl err \<Rightarrow> (fs, Inl err)
      | Inr (imageMap', fs') \<Rightarrow> extract_images e now (k + 1) rest imageMap' fs')"

text \<open>\<open>imageMap[i]\<close> as a value: \<open>undefined\<close> where the row has no entry.\<close>

definition imap_get :: "imap \<Rightarrow> nat \<Rightarrow> jsval" where
  "imap_get imageMap i = (case imageMap i of None \<Rightarrow> Undef | Some p \<Rightarrow> Str p)"

section \<open>Numbers\<close>

text \<open>
  The result of \<open>Number(v)\<close>. Finite values are kept exact; the source rounds them to the
  nearest double, which this development does not follow.
\<close>

datatype jsnum = NaN | Fin rat | Infinity bool

definition digit_val :: "char \<Rightarrow> nat" where
  "digit_val c =
     (if is_digit c then of_char c - 48
      else if is_lower c then of_char c - 87
      else if is_upper c then of_char c - 55
      else 99)"

definition digits_val :: "nat \<Rightarrow> string \<Rightarrow> nat" where
  "digits_val base s = foldl (\<lambda>n c. base * n + digit_val c) 0 s"

text \<open>An unsigned decimal literal: digits, an optional fraction, an optional exponent.\<close>

definition parse_decimal :: "string \<Rightarrow> rat option" where
  "parse_decimal u =
     (let ip = takeWhile is_digit u; r1 = dropWhile is_digit u;
          fp = (case r1 of [] \<Rightarrow> [] | c # t \<Rightarrow> if c = CHR ''.'' then takeWhile is_digit t else []);
          r2 = (case r1 of [] \<Rightarrow> [] | c # t \<Rightarrow> if c = CHR ''.'' then dropWhile is_digit t else r1);
          mant = (of_nat (digits_val 10 (ip @ fp)) :: rat) / 10 ^ length fp
      in if ip = [] \<and> fp = [] then None
         else
           (case r2 of
              [] \<Rightarrow> Some mant
            | c # t \<Rightarrow>
                if c = CHR ''e'' \<or> c = CHR ''E'' then
                  (let neg = (case t of [] \<Rightarrow> False | d # _ \<Rightarrow> d = CHR ''-'');
                       ds = (case t of [] \<Rightarrow> []
                             | d # t' \<Rightarrow> if d = CHR ''-'' \<or> d = CHR ''+'' then t' else t)
                   in if ds \<noteq> [] \<and> list_all is_digit ds
                      then Some (if neg then mant / 10 ^ digits_val 10 ds
                                 else mant * 10 ^ digits_val 10 ds)
                      else None)
                else None))"

text \<open>A binary, octal or hexadecimal integer literal \<open>0b..\<close>, \<open>0o..\<close>, \<open>0x..\<close>.\<close>

definition parse_radix :: "string \<Rightarrow> rat option" where
  "parse_radix s =
     (case s of
        z # x # ds \<Rightarrow>
          (let base = (if lower_char x = CHR ''x'' then 16
                       else if lower_char x = CHR ''o'' then 8
                       else if lower_char x = CHR ''b'' then 2 else 0)
           in if z = CHR ''0'' \<and> base \<noteq> 0 \<and> ds \<noteq> [] \<and> list_all (\<lambda>c. digit_val c < base) ds
              then Some (of_nat (digits_val base ds)) else None)
      | _ \<Rightarrow> None)"

text \<open>\<open>Number(s)\<close> for a string: white space trimmed, the empty string is 0.\<close>

definition str_to_number :: "string \<Rightarrow> jsnum" where
  "str_to_number s0 =
     (let s = trim s0
      in if s = [] then Fin 0
         else
           (case parse_radix s of
              Some r \<Rightarrow> Fin r
            | None \<Rightarrow>
                (let neg = (hd s = CHR ''-'');
                     u = (if hd s = CHR ''-'' \<or> hd s = CHR ''+'' then tl s else s)
                 in if u = ''Infinity'' then Infinity neg
                    else (case parse_decimal u of
                            None \<Rightarrow> NaN
                          | Some r \<Rightarrow> Fin (if neg then - r else r)))))"

fun js_Number :: "jsval \<Rightarrow> jsnum" where
  "js_Number Undef = NaN"
| "js_Number (Str s) = str_to_number s"
| "js_Number (Num n) = Fin (of_int n)"
| "js_Number (Bool b) = Fin (if b then 1 else 0)"

text \<open>\<open>n || 0\<close>: \<open>NaN\<close> and zero are falsy.\<close>

definition num_or_zero :: "jsnum \<Rightarrow> jsnum" where
  "num_or_zero n = (case n of NaN \<Rightarrow> Fin 0 | Fin r \<Rightarrow> Fin r | Infinity b \<Rightarrow> Infinity b)"

section \<open>Candidate records and the record store\<close>

text \<open>
  A document of the \<open>candidates\<close> collection. \<open>doc_id\<close> is \<open>_id\<close>: absent on a freshly
  built object, set by the store on insertion. \<open>updated\<close> is the flag the merge branch adds
  to its copy of the existing record. \<open>createdAt\<close> and \<open>previous_experience\<close> are left
  out: the first is a timestamp, the second is always the empty array, because no
  normalized header can spell \<open>previous_experience\<close>.
\<close>

record candidate =
  doc_id :: "nat option"
  name :: jsval
  email :: jsval
  phone :: jsval
  experience_years :: jsnum
  age :: jsnum
  photo :: jsval
  status :: string
  createdBy :: string
  updated :: bool

text \<open>
  The collection is the list of its documents in insertion order.
  \<open>findOne({email})\<close> returns the first document whose \<open>email\<close> equals the value;
  \<open>updateOne({email}, {$set: {photo}})\<close> changes that same document.
\<close>

definition findOne :: "candidate list \<Rightarrow> jsval \<Rightarrow> candidate option" where
  "findOne docs e = find (\<lambda>d. email d = e) docs"

fun updateOne_photo :: "candidate list \<Rightarrow> jsval \<Rightarrow> jsval \<Rightarrow> candidate list" where
  "updateOne_photo [] e p = []"
| "updateOne_photo (d # ds) e p =
     (if email d = e then d\<lparr>photo := p\<rparr> # ds else d # updateOne_photo ds e p)"

definition fresh_id :: "candidate list \<Rightarrow> nat" where
  "fresh_id docs = Suc (fold max (map (\<lambda>d. case doc_id d of None \<Rightarrow> 0 | Some k \<Rightarrow> k) docs) 0)"

text \<open>
  \<open>insertMany(docs)\<close>, ordered: the documents are inserted one after the other; one
  without \<open>_id\<close> receives a fresh one; one whose \<open>_id\<close> is already in the collection
  violates the unique index on \<open>_id\<close>, the call throws there and the documents before it
  stay inserted.
\<close>

fun insertMany :: "candidate list \<Rightarrow> candidate list \<Rightarrow> candidate list \<times> (error + unit)" where
  "insertMany docs [] = (docs, Inr ())"
| "insertMany docs (d # ds) =
     (case doc_id d of
        None \<Rightarrow> insertMany (docs @ [d\<lparr>doc_id := Some (fresh_id docs)\<rparr>]) ds
      | Some k \<Rightarrow>
          if Some k \<in> set (map doc_id docs) then (docs, Inl (DuplicateKey k))
          else insertMany (docs @ [d]) ds)"

section \<open>Row reconciler\<close>

text \<open>\<open>JSON.stringify(item)\<close>\<close>

definition hex_digit :: "nat \<Rightarrow> char" where
  "hex_digit d = (if d < 16 then ''0123456789abcdef'' ! d else CHR ''?'')"

definition json_escape :: "char \<Rightarrow> string" where
  "json_escape c =
     (let n = (of_char c :: nat)
      in if c = CHR 0x22 then [CHR 0x5C, CHR 0x22]
         else if c = CHR 0x5C then [CHR 0x5C, CHR 0x5C]
         else if n = 8 then [CHR 0x5C, CHR ''b'']
         else if n = 12 then [CHR 0x5C, CHR ''f'']
         else if n = 10 then [CHR 0x5C, CHR ''n'']
         else if n = 13 then [CHR 0x5C, CHR ''r'']
         else if n = 9 then [CHR 0x5C, CHR ''t'']
         else if n < 32 then [CHR 0x5C, CHR ''u'', CHR ''0'', CHR ''0'', hex_digit (n div 16), hex_digit (n mod 16)]
         else [c])"

definition json_string :: "string \<Rightarrow> string" where
  "json_string s = [CHR 0x22] @ concat (map json_escape s) @ [CHR 0x22]"

fun json_value :: "jsval \<Rightarrow> string" where
  "json_value Undef = ''null''"
| "json_value (Str s) = json_string s"
| "json_value (Num n) = show_int n"
| "json_value (Bool b) = (if b then ''true'' else ''false'')"

fun join_comma :: "string list \<Rightarrow> string" where
  "join_comma [] = []"
| "join_comma [x] = x"
| "join_comma (x # y # ys) = x @ '','' @ join_comma (y # ys)"

text \<open>
  Own properties are listed with the array-index keys first, in ascending order, then the
  other keys in insertion order.
\<close>

definition is_index_key :: "string \<Rightarrow> bool" where
  "is_index_key k =
     (k \<noteq> [] \<and> list_all is_digit k \<and> (k = ''0'' \<or> hd k \<noteq> CHR ''0'') \<and>
      digits_val 10 k < 2 ^ 32 - 1)"

definition own_keys_order :: "item \<Rightarrow> item" where
  "own_keys_order it =
     sort_key (\<lambda>kv. digits_val 10 (fst kv)) (filter (\<lambda>kv. is_index_key (fst kv)) it)
     @ filter (\<lambda>kv. \<not> is_index_key (fst kv)) it"

definition JSON_stringify :: "item \<Rightarrow> string" where
  "JSON_stringify it =
     ''{'' @ join_comma (map (\<lambda>kv. json_string (fst kv) @ '':'' @ json_value (snd kv))
                            (own_keys_order it)) @ ''}''"

text \<open>
  The object literal \<open>const candidate = { name, email, phone: String(phone), ... }\<close> of
  a row that is staged as a new record, built from the row's draft \<open>d\<close>, the image map and
  the uploading user.
\<close>

definition new_candidate :: "imap \<Rightarrow> string \<Rightarrow> nat \<Rightarrow> draft \<Rightarrow> candidate" where
  "new_candidate imageMap user i d =
     \<lparr> doc_id = None,
       name = d_name d,
       email = d_email d,
       phone = Str (js_String (d_phone d)),
       experience_years = num_or_zero (js_Number (d_exp d)),
       age = num_or_zero (js_Number (d_age d)),
       photo = js_or (imap_get imageMap i) (Str ''''),
       status = ''pending'',
       createdBy = user,
       updated = False \<rparr>"

text \<open>
  One pass of \<open>for (const rowData of dataRows)\<close>. The state is the collection, the array
  \<open>processed\<close> and the array \<open>errors\<close>; \<open>i\<close> is the sheet row
  \<open>headerRowIndex + 1 + dataRows.indexOf(rowData)\<close>. Every \<open>continue\<close> of the source is a
  branch that returns the state.
\<close>

type_synonym run_state = "candidate list \<times> candidate list \<times> string list"

definition process_row ::
  "imap \<Rightarrow> string \<Rightarrow> string list \<Rightarrow> nat \<Rightarrow> jsval list \<Rightarrow> run_state \<Rightarrow> run_state" where
  "process_row imageMap user headers i rowData st =
     (let docs = fst st; processed = fst (snd st); errors = snd (snd st)
      in if rowData = [] then st
         else
           (let item = build_item headers rowData 0 [];
                d = fallback (compositeString rowData) (map_synonyms item)
            in if \<not> truthy (d_name d) \<or> (\<not> truthy (d_email d) \<and> \<not> truthy (d_phone d)) then
                 (let rowStr = toLowerCase (JSON_stringify item)
                  in if str_includes rowStr ''bdjobs'' \<or> str_includes rowStr ''powered'' then st
                     else if processed \<noteq> [] \<and> \<not> truthy (d_name d) \<and> \<not> truthy (d_email d) then st
                     else (docs, processed,
                           errors @ [''Skipped: Missing Name/Email. Found: ''
                                     @ js_String (js_or (d_name d) (Str ''N/A'')) @ '', ''
                                     @ js_String (js_or (d_email d) (Str ''N/A''))]))
               else
                 (case (if truthy (d_email d) then findOne docs (d_email d) else None) of
                    Some existing \<Rightarrow>
                      (let photo' = imap_get imageMap i
                       in if truthy photo' \<and> \<not> truthy (photo existing)
                          then (updateOne_photo docs (d_email d) photo',
                                processed @ [existing\<lparr>photo := photo', updated := True\<rparr>],
                                errors)
                          else (docs, processed,
                                errors @ [''Skipped: Email '' @ js_String (d_email d)
                                          @ '' already exists'']))
                  | None \<Rightarrow> (docs, processed @ [new_candidate imageMap user i d], errors))))"

fun process_rows ::
  "imap \<Rightarrow> string \<Rightarrow> string list \<Rightarrow> nat \<Rightarrow> jsval list list \<Rightarrow> run_state \<Rightarrow> run_state" where
  "process_rows imageMap user headers i [] st = st"
| "process_rows imageMap user headers i (rowData # rest) st =
     process_rows imageMap user headers (i + 1) rest
       (process_row imageMap user headers i rowData st)"

section \<open>The upload handler\<close>

text \<open>
  The parsed workbook: \<open>wb_rows\<close> is \<open>xlsx.utils.sheet_to_json(sheet, {header: 1})\<close> of the
  first sheet, \<open>wb_images\<close> the embedded images of ExcelJS' first worksheet.
\<close>

record workbook =
  wb_rows :: "jsval list list"
  wb_images :: "image list"

text \<open>
  A request after the middleware: \<open>file_path\<close> is \<open>req.file.path\<close> when a file was
  supplied, \<open>uid\<close> is \<open>req.user.uid\<close>, \<open>parsed\<close> is what the two workbook readers make of
  the uploaded file (\<open>None\<close> when reading it throws), \<open>clock\<close> gives the readings of
  \<open>Date.now()\<close>.
\<close>

record request =
  file_path :: "string option"
  uid :: string
  parsed :: "workbook option"
  clock :: "nat \<Rightarrow> nat"

record world =
  files :: files
  docs_of :: "candidate list"

datatype body = Text string | Report string nat "string list"

record response =
  code :: nat
  body :: body

text \<open>\<open>fs.unlinkSync(p)\<close> throws when the file does not exist.\<close>

definition unlinkSync :: "env \<Rightarrow> files \<Rightarrow> string \<Rightarrow> error + files" where
  "unlinkSync e fs p =
     (case fs (resolve e p) of
        None \<Rightarrow> Inl (ENOENT (resolve e p))
      | Some _ \<Rightarrow> Inr (fs(resolve e p := None)))"

definition error_500 :: response where
  "error_500 = \<lparr> code = 500, body = Text ''Error processing file'' \<rparr>"

text \<open>
  The handler. Every exception inside the \<open>try\<close> ends in the \<open>catch\<close> block, which
  answers 500 and does nothing else.
\<close>

definition upload :: "env \<Rightarrow> request \<Rightarrow> world \<Rightarrow> world \<times> response" where
  "upload e req w =
     (case file_path req of
        None \<Rightarrow> (w, \<lparr> code = 400, body = Text ''No file uploaded'' \<rparr>)
      | Some filePath \<Rightarrow>
          (case parsed req of
             None \<Rightarrow> (w, error_500)
           | Some wb \<Rightarrow>
               (case extract_images e (clock req) 0 (wb_images wb) Map.empty (files w) of
                  (fs1, Inl err) \<Rightarrow> (w\<lparr>files := fs1\<rparr>, error_500)
                | (fs1, Inr imageMap) \<Rightarrow>
                    (case find_header (wb_rows wb) of
                       None \<Rightarrow>
                         (case unlinkSync e fs1 filePath of
                            Inl err \<Rightarrow> (w\<lparr>files := fs1\<rparr>, error_500)
                          | Inr fs2 \<Rightarrow>
                              (w\<lparr>files := fs2\<rparr>,
                               \<lparr> code = 400,
                                 body = Text ''Could not find candidate data headers (Name, Email, etc.) in the Excel file.'' \<rparr>))
                     | Some (headerRowIndex, headers) \<Rightarrow>
                         (let dataRows = drop (headerRowIndex + 1) (wb_rows wb);
                              st = process_rows imageMap (uid req) headers (headerRowIndex + 1)
                                     dataRows (docs_of w, [], []);
                              processed = fst (snd st);
                              errors = snd (snd st);
                              ins = (if processed \<noteq> [] then insertMany (fst st) processed
                                     else (fst st, Inr ()))
                          in case snd ins of
                               Inl err \<Rightarrow> (\<lparr> files = fs1, docs_of = fst ins \<rparr>, error_500)
                             | Inr _ \<Rightarrow>
                                 (case unlinkSync e fs1 filePath of
                                    Inl err \<Rightarrow> (\<lparr> files = fs1, docs_of = fst ins \<rparr>, error_500)
                                  | Inr fs2 \<Rightarrow>
                                      (\<lparr> files = fs2, docs_of = fst ins \<rparr>,
                                       \<lparr> code = 200,
                                         body = Report
                                           (if processed \<noteq> [] then ''File processed successfully''
                                            else ''No valid candidates found in the file'')
                                           (length processed) errors \<rparr>)))))))"

text \<open>
  A row passes the validation of critical fields when the test
  \<open>!name || (!email && !phone)\<close> on its draft fails.
\<close>

definition accepted :: "string list \<Rightarrow> jsval list \<Rightarrow> bool" where
  "accepted headers rowData =
     (truthy (d_name (row_draft headers rowData)) \<and>
      (truthy (d_email (row_draft headers rowData)) \<or> truthy (d_phone (row_draft headers rowData))))"

text \<open>The images that the extractor passes over: resolved extension emf or wmf.\<close>

definition skipped :: "image \<Rightarrow> bool" where
  "skipped img =
     (toLowerCase (detect_extension (img_extension img) (img_buffer img)) \<in> set [''emf'', ''wmf''])"

section \<open>Example inputs\<close>

text \<open>Two environments: a development checkout and a serverless deployment.\<close>

definition dev_env :: env where
  "dev_env = \<lparr> production = False, cwd = ''/app'' \<rparr>"

definition prod_env :: env where
  "prod_env = \<lparr> production = True, cwd = ''/var/task'' \<rparr>"

text \<open>An image that starts with the PNG signature but is listed as \<open>jpg\<close>, anchored at row 3.\<close>

definition png_as_jpg :: image where
  "png_as_jpg = \<lparr> img_row = 3, img_extension = ''jpg'',
                   img_buffer = [0x89, 0x50, 0x4E, 0x47, 0x0D, 0x0A] \<rparr>"

definition metafile :: image where
  "metafile = \<lparr> img_row = 4, img_extension = ''EMF'', img_buffer = [0x01, 0x00, 0x00, 0x00] \<rparr>"

text \<open>Two images anchored at the same row 3, of 500 and of 2000 bytes.\<close>

definition small_icon :: image where
  "small_icon = \<lparr> img_row = 3, img_extension = ''png'', img_buffer = replicate 500 0 \<rparr>"

definition large_photo :: image where
  "large_photo = \<lparr> img_row = 3, img_extension = ''png'', img_buffer = replicate 2000 1 \<rparr>"

text \<open>
  A roster with two title rows, the header at row 2 and one candidate at row 3, whose
  photo is anchored at row 3; and a collection that already holds this candidate, without
  a photo.
\<close>

definition roster :: workbook where
  "roster = \<lparr> wb_rows = [[Str ''Candidate list''], [Str ''Spring intake''],
                          [Str ''Name'', Str ''Email'', Str ''Phone''],
                          [Str ''Alice'', Str ''alice@x.com'', Str ''555-123-4567'']],
              wb_images = [png_as_jpg] \<rparr>"

definition stored_alice :: candidate where
  "stored_alice = \<lparr> doc_id = Some 7, name = Str ''Alice'', email = Str ''alice@x.com'',
                    phone = Str ''555-123-4567'', experience_years = Fin 0, age = Fin 0,
                    photo = Str '''', status = ''pending'', createdBy = ''u0'', updated = False \<rparr>"

definition roster_upload :: request where
  "roster_upload = \<lparr> file_path = Some ''uploads/candidates-900-roster.xlsx'', uid = ''u1'',
                     parsed = Some roster, clock = (\<lambda>k. 1000 + k) \<rparr>"

definition roster_world :: world where
  "roster_world = \<lparr> files = [''/app/uploads/candidates-900-roster.xlsx'' \<mapsto> [0x50, 0x4B]],
                    docs_of = [stored_alice] \<rparr>"

text \<open>An upload whose file the workbook readers cannot read.\<close>

definition unreadable_upload :: request where
  "unreadable_upload = \<lparr> file_path = Some ''uploads/candidates-900-notes.txt'', uid = ''u1'',
                         parsed = None, clock = (\<lambda>k. 1000 + k) \<rparr>"

definition notes_world :: world where
  "notes_world = \<lparr> files = [''/app/uploads/candidates-900-notes.txt'' \<mapsto> [0x68, 0x69]],
                   docs_of = [] \<rparr>"




text \<open>
  The roster with one more row that has a name only, uploaded into an empty collection;
  and the collection this upload leaves, with the uploaded file in place once more.
\<close>

definition intake :: workbook where
  "intake = \<lparr> wb_rows = [[Str ''Candidate list''], [Str ''Spring intake''],
                          [Str ''Name'', Str ''Email'', Str ''Phone''],
                          [Str ''Alice'', Str ''alice@x.com'', Str ''555-123-4567''],
                          [Str ''Carol'']],
              wb_images = [png_as_jpg] \<rparr>"

definition intake_upload :: request where
  "intake_upload = \<lparr> file_path = Some ''uploads/candidates-900-intake.xlsx'', uid = ''u1'',
                     parsed = Some intake, clock = (\<lambda>k. 1000 + k) \<rparr>"

definition intake_world :: world where
  "intake_world = \<lparr> files = [''/app/uploads/candidates-900-intake.xlsx'' \<mapsto> [0x50, 0x4B]],
                    docs_of = [] \<rparr>"

definition inserted_alice :: candidate where
  "inserted_alice = \<lparr> doc_id = Some 1, name = Str ''Alice'', email = Str ''alice@x.com'',
                      phone = Str ''555-123-4567'', experience_years = Fin 0, age = Fin 0,
                      photo = Str ''/uploads/candidates/photo-1000-3.png'', status = ''pending'',
                      createdBy = ''u1'', updated = False \<rparr>"

definition intake_world_again :: world where
  "intake_world_again = \<lparr> files = [''/app/uploads/candidates-900-intake.xlsx'' \<mapsto> [0x50, 0x4B]],
                          docs_of = [inserted_alice] \<rparr>"

text \<open>A list of candidates known by phone only, and the record its upload inserts.\<close>

definition phone_list :: workbook where
  "phone_list = \<lparr> wb_rows = [[Str ''Candidate list''], [Str ''Spring intake''],
                              [Str ''Name'', Str ''Phone''],
                              [Str ''Bob'', Str ''555-987-6543'']],
                  wb_images = [] \<rparr>"

definition phone_upload :: request where
  "phone_upload = \<lparr> file_path = Some ''uploads/candidates-900-phones.xlsx'', uid = ''u1'',
                    parsed = Some phone_list, clock = (\<lambda>k. 1000 + k) \<rparr>"

definition phone_world :: world where
  "phone_world = \<lparr> files = [''/app/uploads/candidates-900-phones.xlsx'' \<mapsto> [0x50, 0x4B]],
                   docs_of = [] \<rparr>"

definition bob :: candidate where
  "bob = \<lparr> doc_id = None, name = Str ''Bob'', email = Undef,
           phone = Str ''555-987-6543'', experience_years = Fin 0, age = Fin 0,
           photo = Str '''', status = ''pending'', createdBy = ''u1'', updated = False \<rparr>"

definition phone_world_again :: world where
  "phone_world_again = \<lparr> files = [''/app/uploads/candidates-900-phones.xlsx'' \<mapsto> [0x50, 0x4B]],
                         docs_of = [bob\<lparr>doc_id := Some 1\<rparr>] \<rparr>"

section \<open>Properties of the header locator\<close>






section \<open>Properties of the image extractor\<close>

lemma buf_at_prefix3:
  "buf_at b 0 = Some x \<and> buf_at b 1 = Some y \<and> buf_at b 2 = Some z \<longleftrightarrow> prefix [x, y, z] b"
proof (cases b)
  case Nil
  then show ?thesis by (simp add: buf_at_def)
next
  case (Cons b0 r0)
  show ?thesis
  proof (cases r0)
    case Nil
    with Cons show ?thesis by (simp add: buf_at_def)
  next
    case (Cons b1 r1)
    with \<open>b = b0 # r0\<close> show ?thesis
      by (cases r1) (auto simp: buf_at_def)
  qed
qed

lemma buf_at_prefix4:
  "buf_at b 0 = Some x \<and> buf_at b 1 = Some y \<and> buf_at b 2 = Some z \<and> buf_at b 3 = Some u
     \<longleftrightarrow> prefix [x, y, z, u] b"
proof -
  have "buf_at b 3 = Some u \<and> prefix [x, y, z] b \<longleftrightarrow> prefix [x, y, z, u] b"
  proof (cases "prefix [x, y, z] b")
    case True
    then obtain r where b: "b = x # y # z # r"
      by (auto simp: prefix_def)
    show ?thesis unfolding b by (cases r) (auto simp: buf_at_def)
  next
    case False
    then show ?thesis by (auto simp: prefix_def)
  qed
  then show ?thesis using buf_at_prefix3[of b x y z] by blast
qed

lemma detect_extension_cases:
  "detect_extension hint b =
     (if prefix [0x89, 0x50, 0x4E, 0x47] b then ''png''
      else if prefix [0xFF, 0xD8, 0xFF] b then ''jpg''
      else if prefix [0x47, 0x49, 0x46] b then ''gif'' else hint)"
  unfolding detect_extension_def
  using buf_at_prefix4[of b "0x89" "0x50" "0x4E" "0x47"]
        buf_at_prefix3[of b "0xFF" "0xD8" "0xFF"] buf_at_prefix3[of b "0x47" "0x49" "0x46"]
  by (simp del: prefix_code)

lemma png_not_metafile: "toLowerCase ''png'' \<notin> set [''emf'', ''wmf'']"
  by (simp add: toLowerCase_def lower_char_def)

text \<open>
  C8. The format of an image is read from its leading bytes and overrides the nominal
  extension: 89 50 4E 47 gives png, FF D8 FF gives jpg, 47 49 46 gives gif, and any other
  content keeps the nominal extension. An image with the PNG signature, whatever its
  nominal extension, on a row that has no image yet, is written under a file name ending
  in \<open>.png\<close> and entered in the image map under that name. An image whose resolved
  extension is emf or wmf (in any letter case) leaves the map and the files as they are
  and raises no error.
\<close>

theorem image_format_from_content:
  "(prefix [0x89, 0x50, 0x4E, 0x47] b \<longrightarrow> detect_extension hint b = ''png'')
   \<and> (prefix [0xFF, 0xD8, 0xFF] b \<longrightarrow> detect_extension hint b = ''jpg'')
   \<and> (prefix [0x47, 0x49, 0x46] b \<longrightarrow> detect_extension hint b = ''gif'')
   \<and> (\<not> prefix [0x89, 0x50, 0x4E, 0x47] b \<and> \<not> prefix [0xFF, 0xD8, 0xFF] b \<and>
       \<not> prefix [0x47, 0x49, 0x46] b \<longrightarrow> detect_extension hint b = hint)
   \<and> (prefix [0x89, 0x50, 0x4E, 0x47] (img_buffer img) \<and> imageMap (img_row img) = None \<longrightarrow>
        image_step e t img (imageMap, fs) =
          Inr (imageMap(img_row img \<mapsto>
                 ''/uploads/candidates/photo-'' @ show_nat t @ ''-'' @ show_nat (img_row img) @ ''.png''),
               fs(resolve e (imagesDir e @ ''/photo-'' @ show_nat t @ ''-'' @ show_nat (img_row img)
                               @ ''.png'') \<mapsto> img_buffer img)))
   \<and> (toLowerCase (detect_extension (img_extension img) (img_buffer img)) \<in> {''emf'', ''wmf''} \<longrightarrow>
        image_step e t img (imageMap, fs) = Inr (imageMap, fs))"
proof -
  have fmt: "(prefix [0x89, 0x50, 0x4E, 0x47] b \<longrightarrow> detect_extension hint b = ''png'')
   \<and> (prefix [0xFF, 0xD8, 0xFF] b \<longrightarrow> detect_extension hint b = ''jpg'')
   \<and> (prefix [0x47, 0x49, 0x46] b \<longrightarrow> detect_extension hint b = ''gif'')
   \<and> (\<not> prefix [0x89, 0x50, 0x4E, 0x47] b \<and> \<not> prefix [0xFF, 0xD8, 0xFF] b \<and>
       \<not> prefix [0x47, 0x49, 0x46] b \<longrightarrow> detect_extension hint b = hint)"
    unfolding detect_extension_cases by (auto simp: prefix_def)
  have png: "image_step e t img (imageMap, fs) =
          Inr (imageMap(img_row img \<mapsto>
                 ''/uploads/candidates/photo-'' @ show_nat t @ ''-'' @ show_nat (img_row img) @ ''.png''),
               fs(resolve e (imagesDir e @ ''/photo-'' @ show_nat t @ ''-'' @ show_nat (img_row img)
                               @ ''.png'') \<mapsto> img_buffer img))"
    if "prefix [0x89, 0x50, 0x4E, 0x47] (img_buffer img)" "imageMap (img_row img) = None"
  proof -
    have "detect_extension (img_extension img) (img_buffer img) = ''png''"
      using that(1) by (simp add: detect_extension_cases del: prefix_code)
    then show ?thesis
      using that(2) png_not_metafile
      by (simp add: image_step_def Let_def fileName_def del: set_simps)
  qed
  have skip: "image_step e t img (imageMap, fs) = Inr (imageMap, fs)"
    if "toLowerCase (detect_extension (img_extension img) (img_buffer img)) \<in> {''emf'', ''wmf''}"
    using that by (simp add: image_step_def Let_def)
  from fmt png skip show ?thesis by blast
qed

theorem image_format_from_content_witness:
  "detect_extension ''jpg'' (img_buffer png_as_jpg) = ''png''
   \<and> image_step dev_env 1000 png_as_jpg (Map.empty, Map.empty) =
       Inr ([3 \<mapsto> ''/uploads/candidates/photo-1000-3.png''],
            [''/app/uploads/candidates/photo-1000-3.png'' \<mapsto> [0x89, 0x50, 0x4E, 0x47, 0x0D, 0x0A]])
   \<and> image_step dev_env 1000 metafile ([3 \<mapsto> ''/uploads/candidates/photo-1000-3.png''], Map.empty) =
       Inr ([3 \<mapsto> ''/uploads/candidates/photo-1000-3.png''], Map.empty)
   \<and> detect_extension ''bmp'' [0xFF, 0xD8, 0xFF, 0xE0] = ''jpg''
   \<and> detect_extension ''bmp'' [0x47, 0x49, 0x46, 0x38] = ''gif''
   \<and> detect_extension ''bmp'' [0x42, 0x4D] = ''bmp''"
proof -
  have s1: "show_nat 1000 = ''1000''" and s2: "show_nat 3 = ''3''"
    by (simp_all add: show_nat.simps digit_char_def)
  have p: "prefix [0x89, 0x50, 0x4E, 0x47] (img_buffer png_as_jpg)"
          "(Map.empty :: imap) (img_row png_as_jpg) = None"
    by (simp_all add: png_as_jpg_def)
  have m: "toLowerCase (detect_extension (img_extension metafile) (img_buffer metafile)) \<in> {''emf'', ''wmf''}"
    by code_simp
  have j: "prefix [0xFF, 0xD8, 0xFF] [0xFF, 0xD8, 0xFF, 0xE0 :: byte]"
   and g: "prefix [0x47, 0x49, 0x46] [0x47, 0x49, 0x46, 0x38 :: byte]"
   and o: "\<not> prefix [0x89, 0x50, 0x4E, 0x47] [0x42, 0x4D :: byte] \<and> \<not> prefix [0xFF, 0xD8, 0xFF] [0x42, 0x4D :: byte] \<and>
       \<not> prefix [0x47, 0x49, 0x46] [0x42, 0x4D :: byte]"
    by simp_all
  have c1: "detect_extension ''jpg'' (img_buffer png_as_jpg) = ''png''"
    using image_format_from_content[of "img_buffer png_as_jpg" "''jpg''"] p(1) by blast
  have "image_step dev_env 1000 png_as_jpg (Map.empty, Map.empty) =
          Inr (Map.empty(img_row png_as_jpg \<mapsto>
                 ''/uploads/candidates/photo-'' @ show_nat 1000 @ ''-'' @ show_nat (img_row png_as_jpg) @ ''.png''),
               Map.empty(resolve dev_env (imagesDir dev_env @ ''/photo-'' @ show_nat 1000 @ ''-''
                               @ show_nat (img_row png_as_jpg) @ ''.png'') \<mapsto> img_buffer png_as_jpg))"
    using image_format_from_content[of _ _ png_as_jpg Map.empty dev_env 1000 Map.empty] p by blast
  then have c2: "image_step dev_env 1000 png_as_jpg (Map.empty, Map.empty) =
       Inr ([3 \<mapsto> ''/uploads/candidates/photo-1000-3.png''],
            [''/app/uploads/candidates/photo-1000-3.png'' \<mapsto> [0x89, 0x50, 0x4E, 0x47, 0x0D, 0x0A]])"
    by (simp add: png_as_jpg_def s1 s2 resolve_def imagesDir_def dev_env_def)
  have c3: "image_step dev_env 1000 metafile ([3 \<mapsto> ''/uploads/candidates/photo-1000-3.png''], Map.empty) =
       Inr ([3 \<mapsto> ''/uploads/candidates/photo-1000-3.png''], Map.empty)"
    using image_format_from_content[of _ _ metafile] m by blast
  have c4: "detect_extension ''bmp'' [0xFF, 0xD8, 0xFF, 0xE0] = ''jpg''"
    using image_format_from_content[of "[0xFF, 0xD8, 0xFF, 0xE0]" "''bmp''"] j by blast
  have c5: "detect_extension ''bmp'' [0x47, 0x49, 0x46, 0x38] = ''gif''"
    using image_format_from_content[of "[0x47, 0x49, 0x46, 0x38]" "''bmp''"] g by blast
  have c6: "detect_extension ''bmp'' [0x42, 0x4D] = ''bmp''"
    using image_format_from_content[of "[0x42, 0x4D]" "''bmp''"] o by blast
  from c1 c2 c3 c4 c5 c6 show ?thesis by blast
qed

text \<open>
  Outside production the file of a row's image is written where the conflict check later
  looks for it, and the larger of two images of one row survives: the second image
  replaces the first only when its buffer is strictly longer, and then the first file is
  removed.
\<close>

lemma same_row_conflict_keeps_larger:
  assumes dev: "\<not> production e"
    and rows: "img_row a = r" "img_row b = r"
    and free: "imageMap r = None"
    and exts: "xa = detect_extension (img_extension a) (img_buffer a)"
              "xb = detect_extension (img_extension b) (img_buffer b)"
              "toLowerCase xa \<notin> set [''emf'', ''wmf'']" "toLowerCase xb \<notin> set [''emf'', ''wmf'']"
    and urls: "ua = ''/uploads/candidates/'' @ fileName (now k) r xa"
              "ub = ''/uploads/candidates/'' @ fileName (now (Suc k)) r xb"
  shows "extract_images e now k [a, b] imageMap fs =
           (if length (img_buffer b) \<le> length (img_buffer a)
            then (fs(cwd e @ ua \<mapsto> img_buffer a), Inr (imageMap(r \<mapsto> ua)))
            else ((fs(cwd e @ ua := None))(cwd e @ ub \<mapsto> img_buffer b), Inr (imageMap(r \<mapsto> ub))))"
proof -
  have res: "resolve e (imagesDir e @ ''/'' @ f) = cwd e @ ''/uploads/candidates/'' @ f" for f
    using dev by (simp add: resolve_def imagesDir_def)
  have first: "image_step e (now k) a (imageMap, fs) =
                 Inr (imageMap(r \<mapsto> ua), fs(cwd e @ ua \<mapsto> img_buffer a))"
    using rows(1) free exts(1,3) urls(1) res
    by (simp add: image_step_def Let_def del: set_simps)
  have ne: "ua \<noteq> []"
    using urls(1) by simp
  have second: "image_step e (now (Suc k)) b (imageMap(r \<mapsto> ua), fs(cwd e @ ua \<mapsto> img_buffer a)) =
          (if length (img_buffer b) \<le> length (img_buffer a)
           then Inr (imageMap(r \<mapsto> ua), fs(cwd e @ ua \<mapsto> img_buffer a))
           else Inr (imageMap(r \<mapsto> ub), (fs(cwd e @ ua := None))(cwd e @ ub \<mapsto> img_buffer b)))"
    using rows(2) exts(2,4) urls(2) res ne
    by (simp add: image_step_def Let_def del: set_simps)
  show ?thesis
    by (simp add: first second)
qed

text \<open>
  C7. Two images anchored at the same sheet row, of 500 and of 2000 bytes, in a production
  environment. The first image is stored under \<open>/tmp/uploads/candidates\<close>; for the second
  the extractor looks for the stored file of the first under the working directory, where
  it is not, so the size comparison raises, the 500-byte file stays, the 2000-byte image is
  never stored and the request ends with status 500.
\<close>

theorem same_row_images_in_production:
  "extract_images prod_env (\<lambda>k. 1000 + k) 0 [small_icon, large_photo] Map.empty Map.empty =
     ([''/tmp/uploads/candidates/photo-1000-3.png'' \<mapsto> replicate 500 0],
      Inl (ENOENT ''/var/task/uploads/candidates/photo-1000-3.png''))
   \<and> upload prod_env
        \<lparr> file_path = Some ''/tmp/uploads/candidates-900-cv.xlsx'', uid = ''u1'',
          parsed = Some \<lparr> wb_rows = [[Str ''Name'', Str ''Email'']],
                          wb_images = [small_icon, large_photo] \<rparr>,
          clock = (\<lambda>k. 1000 + k) \<rparr>
        \<lparr> files = Map.empty, docs_of = [] \<rparr> =
       (\<lparr> files = [''/tmp/uploads/candidates/photo-1000-3.png'' \<mapsto> replicate 500 0], docs_of = [] \<rparr>,
        error_500)"
proof -
  have s1: "show_nat 1000 = ''1000''" and s2: "show_nat 3 = ''3''"
    by (simp_all add: show_nat.simps digit_char_def)
  have d1: "detect_extension ''png'' (replicate 500 0) = ''png''"
    by (simp add: detect_extension_def buf_at_def)
  have st1: "image_step prod_env 1000 small_icon (Map.empty, Map.empty) =
     Inr ([3 \<mapsto> ''/uploads/candidates/photo-1000-3.png''],
          [''/tmp/uploads/candidates/photo-1000-3.png'' \<mapsto> replicate 500 0])"
    using png_not_metafile
    by (simp add: image_step_def Let_def small_icon_def d1 fileName_def s1 s2 resolve_def
          imagesDir_def prod_env_def del: set_simps)
  have d2: "detect_extension ''png'' (replicate 2000 1) = ''png''"
    by (simp add: detect_extension_def buf_at_def)
  have st2: "image_step prod_env 1001 large_photo
       ([3 \<mapsto> ''/uploads/candidates/photo-1000-3.png''],
        [''/tmp/uploads/candidates/photo-1000-3.png'' \<mapsto> replicate 500 0]) =
     Inl (ENOENT ''/var/task/uploads/candidates/photo-1000-3.png'')"
    using png_not_metafile
    by (simp add: image_step_def Let_def large_photo_def d2 prod_env_def del: set_simps)
  have ex: "extract_images prod_env (\<lambda>k. 1000 + k) 0 [small_icon, large_photo] Map.empty Map.empty =
     ([''/tmp/uploads/candidates/photo-1000-3.png'' \<mapsto> replicate 500 0],
      Inl (ENOENT ''/var/task/uploads/candidates/photo-1000-3.png''))"
    by (simp add: st1 st2)
  show ?thesis
    by (simp add: ex upload_def del: extract_images.simps)
qed

section \<open>The handler on the roster\<close>

lemma roster_images:
  "extract_images dev_env (\<lambda>k. 1000 + k) 0 [png_as_jpg] Map.empty fs =
     (fs(''/app/uploads/candidates/photo-1000-3.png'' \<mapsto> [0x89, 0x50, 0x4E, 0x47, 0x0D, 0x0A]),
      Inr [3 \<mapsto> ''/uploads/candidates/photo-1000-3.png''])"
proof -
  have s1: "show_nat 1000 = ''1000''" and s2: "show_nat 3 = ''3''"
    by (simp_all add: show_nat.simps digit_char_def)
  have d: "detect_extension ''jpg'' [0x89, 0x50, 0x4E, 0x47, 0x0D, 0x0A] = ''png''"
    by (simp add: detect_extension_def buf_at_def)
  have "image_step dev_env 1000 png_as_jpg (Map.empty, fs) =
     Inr ([3 \<mapsto> ''/uploads/candidates/photo-1000-3.png''],
          fs(''/app/uploads/candidates/photo-1000-3.png'' \<mapsto> [0x89, 0x50, 0x4E, 0x47, 0x0D, 0x0A]))"
    using png_not_metafile
    by (simp add: image_step_def Let_def png_as_jpg_def d fileName_def s1 s2 resolve_def
          imagesDir_def dev_env_def del: set_simps)
  then show ?thesis by simp
qed

lemma roster_header:
  "find_header (wb_rows roster) = Some (2, [''name'', ''email'', ''phone''])"
  unfolding roster_def by code_simp

lemma alice_item:
  "build_item [''name'', ''email'', ''phone''] [Str ''Alice'', Str ''alice@x.com'', Str ''555-123-4567''] 0 []
     = [(''name'', Str ''Alice''), (''email'', Str ''alice@x.com''), (''phone'', Str ''555-123-4567'')]"
  by simp

lemma alice_draft:
  "fallback cs (map_synonyms [(''name'', Str ''Alice''), (''email'', Str ''alice@x.com''),
                              (''phone'', Str ''555-123-4567'')])
     = \<lparr> d_name = Str ''Alice'', d_email = Str ''alice@x.com'', d_phone = Str ''555-123-4567'',
         d_exp = Undef, d_age = Undef \<rparr>"
  by (simp add: fallback_def map_synonyms_def get_prop_def js_or_def)

lemma alice_merge:
  "process_rows [3 \<mapsto> ''/uploads/candidates/photo-1000-3.png''] ''u1'' [''name'', ''email'', ''phone''] 3
     [[Str ''Alice'', Str ''alice@x.com'', Str ''555-123-4567'']] ([stored_alice], [], [])
   = ([stored_alice\<lparr>photo := Str ''/uploads/candidates/photo-1000-3.png''\<rparr>],
      [stored_alice\<lparr>photo := Str ''/uploads/candidates/photo-1000-3.png'', updated := True\<rparr>],
      [])"
  by (simp add: process_row_def Let_def alice_item alice_draft findOne_def imap_get_def stored_alice_def new_candidate_def)

text \<open>
  C1. The roster row of Alice matches the stored record by email; the stored record has no
  photo and the row has an image. The reconciler patches the photo of the stored record
  and nothing else of it, and appends the patched copy, with the stored \<open>_id\<close>, to
  \<open>processed\<close>, the array that is handed to \<open>insertMany\<close>: the batch insert does
  contain the row. The store rejects the copy as a duplicate key, so the request ends with
  status 500 instead of an accepted tally, and the uploaded file is still there.
\<close>

theorem merged_row_is_in_the_batch_insert:
  "process_rows [3 \<mapsto> ''/uploads/candidates/photo-1000-3.png''] ''u1'' [''name'', ''email'', ''phone''] 3
     (drop 3 (wb_rows roster)) (docs_of roster_world, [], [])
   = ([stored_alice\<lparr>photo := Str ''/uploads/candidates/photo-1000-3.png''\<rparr>],
      [stored_alice\<lparr>photo := Str ''/uploads/candidates/photo-1000-3.png'', updated := True\<rparr>],
      [])
   \<and> insertMany [stored_alice\<lparr>photo := Str ''/uploads/candidates/photo-1000-3.png''\<rparr>]
        [stored_alice\<lparr>photo := Str ''/uploads/candidates/photo-1000-3.png'', updated := True\<rparr>]
       = ([stored_alice\<lparr>photo := Str ''/uploads/candidates/photo-1000-3.png''\<rparr>],
          Inl (DuplicateKey 7))
   \<and> upload dev_env roster_upload roster_world
       = (\<lparr> files = [''/app/uploads/candidates-900-roster.xlsx'' \<mapsto> [0x50, 0x4B],
                      ''/app/uploads/candidates/photo-1000-3.png'' \<mapsto> [0x89, 0x50, 0x4E, 0x47, 0x0D, 0x0A]],
            docs_of = [stored_alice\<lparr>photo := Str ''/uploads/candidates/photo-1000-3.png''\<rparr>] \<rparr>,
          error_500)"
proof -
  have rows: "drop 3 (wb_rows roster) = [[Str ''Alice'', Str ''alice@x.com'', Str ''555-123-4567'']]"
    by (simp add: roster_def)
  have a: "process_rows [3 \<mapsto> ''/uploads/candidates/photo-1000-3.png''] ''u1'' [''name'', ''email'', ''phone''] 3
     (drop 3 (wb_rows roster)) (docs_of roster_world, [], [])
   = ([stored_alice\<lparr>photo := Str ''/uploads/candidates/photo-1000-3.png''\<rparr>],
      [stored_alice\<lparr>photo := Str ''/uploads/candidates/photo-1000-3.png'', updated := True\<rparr>],
      [])"
    unfolding rows using alice_merge by (simp add: roster_world_def)
  have b: "insertMany [stored_alice\<lparr>photo := Str ''/uploads/candidates/photo-1000-3.png''\<rparr>]
        [stored_alice\<lparr>photo := Str ''/uploads/candidates/photo-1000-3.png'', updated := True\<rparr>]
       = ([stored_alice\<lparr>photo := Str ''/uploads/candidates/photo-1000-3.png''\<rparr>],
          Inl (DuplicateKey 7))"
    by (simp add: stored_alice_def)
  have im: "wb_images roster = [png_as_jpg]"
    by (simp add: roster_def)
  have c: "upload dev_env roster_upload roster_world
       = (\<lparr> files = [''/app/uploads/candidates-900-roster.xlsx'' \<mapsto> [0x50, 0x4B],
                      ''/app/uploads/candidates/photo-1000-3.png'' \<mapsto> [0x89, 0x50, 0x4E, 0x47, 0x0D, 0x0A]],
            docs_of = [stored_alice\<lparr>photo := Str ''/uploads/candidates/photo-1000-3.png''\<rparr>] \<rparr>,
          error_500)"
    unfolding upload_def roster_upload_def
    by (simp add: im roster_images roster_header a b Let_def
          del: extract_images.simps process_rows.simps insertMany.simps)
       (simp add: roster_world_def)
  from a b c show ?thesis by blast
qed

text \<open>
  C9. An upload whose file cannot be read as a workbook: reading throws, the handler
  answers 500 from its \<open>catch\<close> block, which removes nothing: the uploaded temporary
  file is still in place afterwards.
\<close>

theorem failed_upload_keeps_temp_file:
  "upload dev_env unreadable_upload notes_world = (notes_world, error_500)
   \<and> files notes_world (resolve dev_env ''uploads/candidates-900-notes.txt'') = Some [0x68, 0x69]"
  by (simp add: upload_def unreadable_upload_def notes_world_def resolve_def dev_env_def)

section \<open>Properties of the fallback extractor\<close>

text \<open>A match has one piece for each atom of the pattern, so the groups read below exist.\<close>

lemma run_pieces: "run re s = Some (ms, r) \<Longrightarrow> length ms = length re"
  and try_alts_pieces: "try_alts re' xs = Some (ms', r') \<Longrightarrow> length ms' = Suc (length re')"
proof (induction re s and re' xs arbitrary: ms r and ms' r' rule: run_try_alts.induct)
  case (1 s)
  then show ?case by auto
next
  case (2 a as s)
  then show ?case by auto
next
  case (3 as)
  then show ?case by auto
next
  case (4 as m r0 xs)
  then show ?case by (auto split: option.splits)
qed

lemma re_match_pieces: "re_match re s = Some ms \<Longrightarrow> length ms = length re"
proof (induction s)
  case Nil
  then show ?case using run_pieces[of re "[]"] by auto
next
  case (Cons c cs)
  then show ?case using run_pieces[of re "c # cs"] by (auto split: option.splits)
qed
















section \<open>Properties of the row reconciler\<close>

lemma empty_row_draft: "d_name (row_draft headers []) = Undef"
  by (simp add: row_draft_def compositeString_def fallback_def map_synonyms_def get_prop_def js_or_def)

text \<open>
  C6, as the code has it. A row whose draft, after mapping and fallback, has a name but
  neither email nor phone leaves the collection and the staged records as they are, so it
  is not counted. The message \<open>Skipped: Missing Name/Email. Found: <name>, N/A\<close> is
  appended to the errors, unless the lower-cased JSON text of the row's mapped cells
  contains \<open>bdjobs\<close> or \<open>powered\<close>: then the row is dropped without a message.
\<close>

theorem contactless_row_is_skipped:
  assumes "d = row_draft headers rowData"
    and "truthy (d_name d)" and "\<not> truthy (d_email d)" and "\<not> truthy (d_phone d)"
    and "rowStr = toLowerCase (JSON_stringify (build_item headers rowData 0 []))"
  shows "process_row imageMap user headers i rowData (docs, processed, errors) =
           (docs, processed,
            if str_includes rowStr ''bdjobs'' \<or> str_includes rowStr ''powered'' then errors
            else errors @ [''Skipped: Missing Name/Email. Found: '' @ js_String (d_name d) @ '', N/A''])"
proof -
  have "rowData \<noteq> []"
    using assms(1,2) empty_row_draft[of headers] by auto
  then show ?thesis
    using assms by (simp add: process_row_def Let_def row_draft_def js_or_def)
qed

lemma carol_item:
  "build_item [''name'', ''email'', ''phone''] [Str ''Carol''] 0 [] = [(''name'', Str ''Carol'')]"
  by simp

lemma carol_draft:
  "row_draft [''name'', ''email'', ''phone''] [Str ''Carol'']
     = \<lparr> d_name = Str ''Carol'', d_email = Undef, d_phone = Undef, d_exp = Undef, d_age = Undef \<rparr>"
  by (simp add: row_draft_def fallback_def compositeString_def js_or_def trim_def is_space_def
        map_synonyms_def get_prop_def)

lemma carol_json:
  "toLowerCase (JSON_stringify [(''name'', Str ''Carol'')]) = ''{\"name\":\"carol\"}''"
  by code_simp

theorem contactless_row_is_skipped_witness:
  "process_row Map.empty ''u1'' [''name'', ''email'', ''phone''] 3 [Str ''Carol''] ([], [], [])
     = ([], [], [''Skipped: Missing Name/Email. Found: Carol, N/A''])"
  using contactless_row_is_skipped[OF carol_draft [symmetric], of _
          Map.empty "''u1''" 3 "[]" "[]" "[]"]
  by (simp add: carol_item carol_json)

lemma branding_item:
  "build_item [''name'', ''email'', ''phone''] [Str ''Bdjobs Applicant''] 0 []
     = [(''name'', Str ''Bdjobs Applicant'')]"
  by simp

lemma branding_draft:
  "fallback (compositeString [Str ''Bdjobs Applicant'']) (map_synonyms [(''name'', Str ''Bdjobs Applicant'')])
     = \<lparr> d_name = Str ''Bdjobs Applicant'', d_email = Undef, d_phone = Undef, d_exp = Undef,
         d_age = Undef \<rparr>"
  by (simp add: fallback_def compositeString_def js_or_def trim_def is_space_def
        map_synonyms_def get_prop_def)

lemma branding_json:
  "str_includes (toLowerCase (JSON_stringify [(''name'', Str ''Bdjobs Applicant'')])) ''bdjobs''"
  by code_simp

text \<open>
  C6, as stated, fails on a row with a name, no email and no phone whose name cell reads
  \<open>Bdjobs Applicant\<close>: the row is dropped and the errors stay empty.
\<close>

theorem named_row_dropped_without_error:
  "d_name (row_draft [''name'', ''email'', ''phone''] [Str ''Bdjobs Applicant'']) = Str ''Bdjobs Applicant''
   \<and> d_email (row_draft [''name'', ''email'', ''phone''] [Str ''Bdjobs Applicant'']) = Undef
   \<and> d_phone (row_draft [''name'', ''email'', ''phone''] [Str ''Bdjobs Applicant'']) = Undef
   \<and> process_row Map.empty ''u1'' [''name'', ''email'', ''phone''] 3 [Str ''Bdjobs Applicant'']
         ([], [], []) = ([], [], [])"
  using branding_json
  by (simp add: row_draft_def process_row_def Let_def branding_item branding_draft)

lemma findOne_single:
  "email c = e \<Longrightarrow> findOne [c] e = Some c"
  by (simp add: findOne_def)

lemma num_or_zero_number: "num_or_zero n \<noteq> NaN"
  by (cases n) (simp_all add: num_or_zero_def)

text \<open>
  C10. A row that passes validation and whose email, if it has one, is not in the
  collection is staged as one new record \<open>c\<close>, appended to \<open>processed\<close>. The record has
  status \<open>pending\<close>, the uploading user as \<open>createdBy\<close>, a string as phone, and numbers
  as \<open>experience_years\<close> and \<open>age\<close>, which are 0 where the source value is absent or does
  not read as a number. Where the image map has no entry for the row's sheet position the
  photo is the empty string, which is falsy: once the record is stored, a later row with
  the same email and an image takes the merge branch.
\<close>

theorem staged_candidate_invariants:
  assumes "d = row_draft headers rowData"
    and "truthy (d_name d)" and "truthy (d_email d) \<or> truthy (d_phone d)"
    and "truthy (d_email d) \<longrightarrow> findOne docs (d_email d) = None"
    and "c = new_candidate imageMap user i d"
  shows "process_row imageMap user headers i rowData (docs, processed, errors)
           = (docs, processed @ [c], errors)
         \<and> status c = ''pending'' \<and> createdBy c = user
         \<and> phone c = Str (js_String (d_phone d))
         \<and> experience_years c \<noteq> NaN \<and> age c \<noteq> NaN
         \<and> (d_exp d = Undef \<or> js_Number (d_exp d) = NaN \<longrightarrow> experience_years c = Fin 0)
         \<and> (d_age d = Undef \<or> js_Number (d_age d) = NaN \<longrightarrow> age c = Fin 0)
         \<and> (imageMap i = None \<longrightarrow> photo c = Str '''' \<and> \<not> truthy (photo c))
         \<and> (imageMap i = None \<and> truthy (d_email d) \<and> d' = row_draft headers' row' \<and>
              truthy (d_name d') \<and> d_email d' = d_email d \<and> imageMap' j = Some p \<and> p \<noteq> [] \<longrightarrow>
              process_row imageMap' user' headers' j row' ([c\<lparr>doc_id := Some k\<rparr>], processed', errors')
                = ([c\<lparr>doc_id := Some k, photo := Str p\<rparr>],
                   processed' @ [c\<lparr>doc_id := Some k, photo := Str p, updated := True\<rparr>],
                   errors'))"
proof -
  have ne: "rowData \<noteq> []"
    using assms(1,2) empty_row_draft[of headers] by auto
  have staged: "process_row imageMap user headers i rowData (docs, processed, errors)
           = (docs, processed @ [c], errors)"
    using ne assms by (auto simp: process_row_def Let_def row_draft_def)
  have fields: "status c = ''pending'' \<and> createdBy c = user
         \<and> phone c = Str (js_String (d_phone d))
         \<and> experience_years c \<noteq> NaN \<and> age c \<noteq> NaN
         \<and> (d_exp d = Undef \<or> js_Number (d_exp d) = NaN \<longrightarrow> experience_years c = Fin 0)
         \<and> (d_age d = Undef \<or> js_Number (d_age d) = NaN \<longrightarrow> age c = Fin 0)
         \<and> (imageMap i = None \<longrightarrow> photo c = Str '''' \<and> \<not> truthy (photo c))"
    using assms(5) num_or_zero_number
    by (auto simp: new_candidate_def num_or_zero_def imap_get_def js_or_def)
  have later: "process_row imageMap' user' headers' j row' ([c\<lparr>doc_id := Some k\<rparr>], processed', errors')
                = ([c\<lparr>doc_id := Some k, photo := Str p\<rparr>],
                   processed' @ [c\<lparr>doc_id := Some k, photo := Str p, updated := True\<rparr>],
                   errors')"
    if h: "imageMap i = None" "truthy (d_email d)" "d' = row_draft headers' row'"
          "truthy (d_name d')" "d_email d' = d_email d" "imageMap' j = Some p" "p \<noteq> []"
  proof -
    have ne': "row' \<noteq> []"
      using h(3,4) empty_row_draft[of headers'] by auto
    have em: "email (c\<lparr>doc_id := Some k\<rparr>) = d_email d'"
      using assms(5) h(5) by (simp add: new_candidate_def)
    have ph: "\<not> truthy (photo (c\<lparr>doc_id := Some k\<rparr>))"
      using fields h(1) by simp
    have f: "findOne [c\<lparr>doc_id := Some k\<rparr>] (d_email d') = Some (c\<lparr>doc_id := Some k\<rparr>)"
      using em by (rule findOne_single)
    show ?thesis
      using ne' h f ph em
      by (simp add: process_row_def Let_def row_draft_def[symmetric] imap_get_def)
  qed
  from staged fields later show ?thesis by blast
qed

lemma dana_item:
  "build_item [''name'', ''email'', ''experience''] [Str ''Dana'', Str ''dana@x.com'', Str ''n/a''] 0 []
     = [(''name'', Str ''Dana''), (''email'', Str ''dana@x.com''), (''experience'', Str ''n/a'')]"
  by simp

lemma dana_draft:
  "row_draft [''name'', ''email'', ''experience''] [Str ''Dana'', Str ''dana@x.com'', Str ''n/a'']
     = \<lparr> d_name = Str ''Dana'', d_email = Str ''dana@x.com'', d_phone = Undef,
         d_exp = Str ''n/a'', d_age = Undef \<rparr>"
  by (simp add: row_draft_def fallback_def compositeString_def js_or_def trim_def is_space_def
        map_synonyms_def get_prop_def)

lemma number_na: "str_to_number ''n/a'' = NaN"
  by code_simp

theorem staged_candidate_invariants_witness:
  "process_row Map.empty ''u1'' [''name'', ''email'', ''experience''] 3
     [Str ''Dana'', Str ''dana@x.com'', Str ''n/a''] ([], [], [])
     = ([], [\<lparr> doc_id = None, name = Str ''Dana'', email = Str ''dana@x.com'',
                phone = Str ''undefined'', experience_years = Fin 0, age = Fin 0,
                photo = Str '''', status = ''pending'', createdBy = ''u1'', updated = False \<rparr>], [])
   \<and> process_row [3 \<mapsto> ''/uploads/candidates/photo-2000-3.png''] ''u2'' [''name'', ''email'', ''experience''] 3
       [Str ''Dana'', Str ''dana@x.com'', Str ''n/a'']
       ([\<lparr> doc_id = Some 1, name = Str ''Dana'', email = Str ''dana@x.com'',
            phone = Str ''undefined'', experience_years = Fin 0, age = Fin 0,
            photo = Str '''', status = ''pending'', createdBy = ''u1'', updated = False \<rparr>], [], [])
     = ([\<lparr> doc_id = Some 1, name = Str ''Dana'', email = Str ''dana@x.com'',
            phone = Str ''undefined'', experience_years = Fin 0, age = Fin 0,
            photo = Str ''/uploads/candidates/photo-2000-3.png'', status = ''pending'',
            createdBy = ''u1'', updated = False \<rparr>],
        [\<lparr> doc_id = Some 1, name = Str ''Dana'', email = Str ''dana@x.com'',
            phone = Str ''undefined'', experience_years = Fin 0, age = Fin 0,
            photo = Str ''/uploads/candidates/photo-2000-3.png'', status = ''pending'',
            createdBy = ''u1'', updated = True \<rparr>], [])"
proof -
  let ?d = "\<lparr> d_name = Str ''Dana'', d_email = Str ''dana@x.com'', d_phone = Undef,
              d_exp = Str ''n/a'', d_age = Undef \<rparr>"
  have c: "new_candidate Map.empty ''u1'' 3 ?d =
             \<lparr> doc_id = None, name = Str ''Dana'', email = Str ''dana@x.com'',
               phone = Str ''undefined'', experience_years = Fin 0, age = Fin 0,
               photo = Str '''', status = ''pending'', createdBy = ''u1'', updated = False \<rparr>"
    by (simp add: new_candidate_def number_na num_or_zero_def imap_get_def js_or_def)
  have "truthy (d_name ?d)" "truthy (d_email ?d) \<or> truthy (d_phone ?d)"
       "truthy (d_email ?d) \<longrightarrow> findOne [] (d_email ?d) = None"
       "(Map.empty :: imap) 3 = None" "[3 \<mapsto> ''/uploads/candidates/photo-2000-3.png''] (3::nat)
          = Some ''/uploads/candidates/photo-2000-3.png''"
    by (simp_all add: findOne_def)
  then show ?thesis
    using staged_candidate_invariants[where d = ?d and docs = "[]"
               and headers = "[''name'', ''email'', ''experience'']"
               and rowData = "[Str ''Dana'', Str ''dana@x.com'', Str ''n/a'']"
               and imageMap = Map.empty and user = "''u1''" and i = 3
               and c = "new_candidate Map.empty ''u1'' 3 ?d"
               and processed = "[]" and errors = "[]"
               and d' = ?d and headers' = "[''name'', ''email'', ''experience'']"
               and row' = "[Str ''Dana'', Str ''dana@x.com'', Str ''n/a'']"
               and imageMap' = "[3 \<mapsto> ''/uploads/candidates/photo-2000-3.png'']" and j = 3
               and p = "''/uploads/candidates/photo-2000-3.png''" and user' = "''u2''" and k = 1
               and processed' = "[]" and errors' = "[]"]
          dana_draft c
    by simp
qed

section \<open>Image extraction: files kept and rows mapped\<close>



section \<open>Header detection failure\<close>




section \<open>Uploading the same workbook again\<close>

subsection \<open>The branches of one row\<close>

lemma process_row_not_accepted:
  assumes "\<not> accepted headers rowData"
  shows "\<exists>errors'. process_row imageMap user headers i rowData (docs, processed, errors)
           = (docs, processed, errors') \<and> set errors \<subseteq> set errors'"
  using assms
  by (auto simp: process_row_def Let_def accepted_def row_draft_def)

lemma accepted_nonempty: "accepted headers rowData \<Longrightarrow> rowData \<noteq> []"
  using empty_row_draft[of headers] by (auto simp: accepted_def)

lemma process_row_duplicate:
  assumes "accepted headers rowData" and "d = row_draft headers rowData"
    and "truthy (d_email d)" and "findOne docs (d_email d) = Some x"
    and "\<not> (truthy (imap_get imageMap i) \<and> \<not> truthy (photo x))"
  shows "process_row imageMap user headers i rowData (docs, processed, errors)
           = (docs, processed,
              errors @ [''Skipped: Email '' @ js_String (d_email d) @ '' already exists''])"
  using assms accepted_nonempty[OF assms(1)]
  by (auto simp: process_row_def Let_def accepted_def row_draft_def)

lemma process_row_merge:
  assumes "accepted headers rowData" and "d = row_draft headers rowData"
    and "truthy (d_email d)" and "findOne docs (d_email d) = Some x"
    and "truthy (imap_get imageMap i)" and "\<not> truthy (photo x)"
  shows "process_row imageMap user headers i rowData (docs, processed, errors)
           = (updateOne_photo docs (d_email d) (imap_get imageMap i),
              processed @ [x\<lparr>photo := imap_get imageMap i, updated := True\<rparr>], errors)"
  using assms accepted_nonempty[OF assms(1)]
  by (auto simp: process_row_def Let_def accepted_def row_draft_def)

lemma process_row_new:
  assumes "accepted headers rowData" and "d = row_draft headers rowData"
    and "truthy (d_email d) \<longrightarrow> findOne docs (d_email d) = None"
  shows "process_row imageMap user headers i rowData (docs, processed, errors)
           = (docs, processed @ [new_candidate imageMap user i d], errors)"
  using assms accepted_nonempty[OF assms(1)]
  by (auto simp: process_row_def Let_def accepted_def row_draft_def)

lemma findOne_member: "findOne docs e = Some x \<Longrightarrow> x \<in> set docs \<and> email x = e"
  unfolding findOne_def by (induction docs) (auto split: if_splits)

lemma updateOne_photo_ids: "map doc_id (updateOne_photo docs e p) = map doc_id docs"
  by (induction docs) auto

text \<open>Every row leaves the \<open>_id\<close>s of the collection alone and only appends to \<open>processed\<close>.\<close>

lemma process_row_frame:
  assumes "process_row imageMap user headers i rowData (docs, processed, errors)
             = (docs', processed', errors')"
  shows "map doc_id docs' = map doc_id docs \<and> set processed \<subseteq> set processed'"
proof (cases "accepted headers rowData")
  case False
  from process_row_not_accepted[OF False, of imageMap user i docs processed errors] assms
  show ?thesis by auto
next
  case True
  define d where "d = row_draft headers rowData"
  show ?thesis
  proof (cases "truthy (d_email d) \<and> findOne docs (d_email d) \<noteq> None")
    case False
    then have "truthy (d_email d) \<longrightarrow> findOne docs (d_email d) = None" by blast
    from process_row_new[OF True d_def this] assms show ?thesis by auto
  next
    case found: True
    then obtain x where x: "findOne docs (d_email d) = Some x" by blast
    show ?thesis
    proof (cases "truthy (imap_get imageMap i) \<and> \<not> truthy (photo x)")
      case True
      with process_row_merge[OF \<open>accepted headers rowData\<close> d_def _ x] found assms
      show ?thesis by (auto simp: updateOne_photo_ids)
    next
      case False
      with process_row_duplicate[OF \<open>accepted headers rowData\<close> d_def _ x] found assms
      show ?thesis by auto
    qed
  qed
qed

lemma process_rows_frame:
  assumes "process_rows imageMap user headers b rs (docs, processed, errors)
             = (docs', processed', errors')"
  shows "map doc_id docs' = map doc_id docs \<and> set processed \<subseteq> set processed'"
  using assms
proof (induction rs arbitrary: b docs processed errors)
  case Nil
  then show ?case by simp
next
  case (Cons r rs)
  obtain d1 p1 e1 where step: "process_row imageMap user headers b r (docs, processed, errors) = (d1, p1, e1)"
    by (cases "process_row imageMap user headers b r (docs, processed, errors)") auto
  with Cons.prems have rest: "process_rows imageMap user headers (b + 1) rs (d1, p1, e1)
             = (docs', processed', errors')"
    by simp
  from process_row_frame[OF step] Cons.IH[OF rest] show ?case by auto
qed

subsection \<open>A pass that merges nothing\<close>

text \<open>
  When no staged record carries an \<open>_id\<close> of the collection, no row took the merge branch:
  the collection is unchanged by the loop, every accepted row with a stored email took the
  duplicate branch, every other accepted row was staged, and nothing else was staged.
\<close>

lemma first_pass:
  assumes "process_rows imageMap user headers b rs (docs, processed, errors)
             = (docs', processed', errors')"
    and "\<forall>c\<in>set processed'. doc_id c \<notin> set (map doc_id docs)"
  shows "docs' = docs
    \<and> (\<forall>j<length rs. accepted headers (rs ! j) \<longrightarrow>
          (\<forall>x. truthy (d_email (row_draft headers (rs ! j))) \<and>
               findOne docs (d_email (row_draft headers (rs ! j))) = Some x \<longrightarrow>
               \<not> (truthy (imap_get imageMap (b + j)) \<and> \<not> truthy (photo x))) \<and>
          ((truthy (d_email (row_draft headers (rs ! j))) \<longrightarrow>
              findOne docs (d_email (row_draft headers (rs ! j))) = None) \<longrightarrow>
             new_candidate imageMap user (b + j) (row_draft headers (rs ! j)) \<in> set processed'))
    \<and> (\<forall>c\<in>set processed'. c \<in> set processed \<or>
          (\<exists>j<length rs. accepted headers (rs ! j) \<and>
             c = new_candidate imageMap user (b + j) (row_draft headers (rs ! j))))"
  using assms
proof (induction rs arbitrary: b processed errors)
  case Nil
  then show ?case by simp
next
  case (Cons r rs)
  obtain d1 p1 e1 where step: "process_row imageMap user headers b r (docs, processed, errors) = (d1, p1, e1)"
    by (cases "process_row imageMap user headers b r (docs, processed, errors)") auto
  with Cons.prems(1) have rest: "process_rows imageMap user headers (b + 1) rs (d1, p1, e1)
             = (docs', processed', errors')"
    by simp
  have sub: "set p1 \<subseteq> set processed'"
    using process_rows_frame[OF rest] by simp
  define d where "d = row_draft headers r"
  have row: "d1 = docs
      \<and> (accepted headers r \<longrightarrow>
          (\<forall>x. truthy (d_email d) \<and> findOne docs (d_email d) = Some x \<longrightarrow>
               \<not> (truthy (imap_get imageMap b) \<and> \<not> truthy (photo x))) \<and>
          ((truthy (d_email d) \<longrightarrow> findOne docs (d_email d) = None) \<longrightarrow>
             new_candidate imageMap user b d \<in> set p1))
      \<and> (\<forall>c\<in>set p1. c \<in> set processed \<or> (accepted headers r \<and> c = new_candidate imageMap user b d))"
  proof (cases "accepted headers r")
    case False
    from process_row_not_accepted[OF False, of imageMap user b docs processed errors] step
    show ?thesis using False by auto
  next
    case acc: True
    show ?thesis
    proof (cases "truthy (d_email d) \<and> findOne docs (d_email d) \<noteq> None")
      case False
      then have none: "truthy (d_email d) \<longrightarrow> findOne docs (d_email d) = None" by blast
      from process_row_new[OF acc d_def none, of imageMap user b processed errors] step
      show ?thesis using acc none by auto
    next
      case found: True
      then obtain x where x: "findOne docs (d_email d) = Some x" by blast
      have nomerge: "\<not> (truthy (imap_get imageMap b) \<and> \<not> truthy (photo x))"
      proof
        assume m: "truthy (imap_get imageMap b) \<and> \<not> truthy (photo x)"
        from process_row_merge[OF acc d_def _ x, of imageMap b user processed errors] m found step
        have "x\<lparr>photo := imap_get imageMap b, updated := True\<rparr> \<in> set p1"
          by auto
        with sub have "x\<lparr>photo := imap_get imageMap b, updated := True\<rparr> \<in> set processed'"
          by blast
        with Cons.prems(2) have "doc_id x \<notin> set (map doc_id docs)"
          by fastforce
        moreover have "x \<in> set docs"
          using findOne_member[OF x] by simp
        ultimately show False by simp
      qed
      from process_row_duplicate[OF acc d_def _ x nomerge, of user processed errors] found step
      show ?thesis using acc x nomerge by auto
    qed
  qed
  then have d1: "d1 = docs" by simp
  note IH = Cons.IH[OF rest[unfolded d1] Cons.prems(2)]
  have IHa: "\<forall>j<length rs. accepted headers (rs ! j) \<longrightarrow>
          (\<forall>x. truthy (d_email (row_draft headers (rs ! j))) \<and>
               findOne docs (d_email (row_draft headers (rs ! j))) = Some x \<longrightarrow>
               \<not> (truthy (imap_get imageMap (b + 1 + j)) \<and> \<not> truthy (photo x))) \<and>
          ((truthy (d_email (row_draft headers (rs ! j))) \<longrightarrow>
              findOne docs (d_email (row_draft headers (rs ! j))) = None) \<longrightarrow>
             new_candidate imageMap user (b + 1 + j) (row_draft headers (rs ! j)) \<in> set processed')"
    using IH by blast
  have IHb: "\<forall>c\<in>set processed'. c \<in> set p1 \<or>
          (\<exists>j<length rs. accepted headers (rs ! j) \<and>
             c = new_candidate imageMap user (b + 1 + j) (row_draft headers (rs ! j)))"
    using IH by blast
  have A: "\<forall>j<length (r # rs). accepted headers ((r # rs) ! j) \<longrightarrow>
          (\<forall>x. truthy (d_email (row_draft headers ((r # rs) ! j))) \<and>
               findOne docs (d_email (row_draft headers ((r # rs) ! j))) = Some x \<longrightarrow>
               \<not> (truthy (imap_get imageMap (b + j)) \<and> \<not> truthy (photo x))) \<and>
          ((truthy (d_email (row_draft headers ((r # rs) ! j))) \<longrightarrow>
              findOne docs (d_email (row_draft headers ((r # rs) ! j))) = None) \<longrightarrow>
             new_candidate imageMap user (b + j) (row_draft headers ((r # rs) ! j)) \<in> set processed')"
  proof (intro allI impI)
    fix j assume j: "j < length (r # rs)" and acc: "accepted headers ((r # rs) ! j)"
    show "(\<forall>x. truthy (d_email (row_draft headers ((r # rs) ! j))) \<and>
               findOne docs (d_email (row_draft headers ((r # rs) ! j))) = Some x \<longrightarrow>
               \<not> (truthy (imap_get imageMap (b + j)) \<and> \<not> truthy (photo x))) \<and>
          ((truthy (d_email (row_draft headers ((r # rs) ! j))) \<longrightarrow>
              findOne docs (d_email (row_draft headers ((r # rs) ! j))) = None) \<longrightarrow>
             new_candidate imageMap user (b + j) (row_draft headers ((r # rs) ! j)) \<in> set processed')"
    proof (cases j)
      case 0
      with row acc sub show ?thesis unfolding d_def by auto
    next
      case (Suc j')
      with j acc IHa[rule_format, of j'] show ?thesis by simp
    qed
  qed
  have B: "\<forall>c\<in>set processed'. c \<in> set processed \<or>
          (\<exists>j<length (r # rs). accepted headers ((r # rs) ! j) \<and>
             c = new_candidate imageMap user (b + j) (row_draft headers ((r # rs) ! j)))"
  proof
    fix c assume "c \<in> set processed'"
    with IHb consider "c \<in> set p1"
      | j where "j < length rs" "accepted headers (rs ! j)"
          "c = new_candidate imageMap user (b + 1 + j) (row_draft headers (rs ! j))"
      by blast
    then show "c \<in> set processed \<or>
          (\<exists>j<length (r # rs). accepted headers ((r # rs) ! j) \<and>
             c = new_candidate imageMap user (b + j) (row_draft headers ((r # rs) ! j)))"
    proof cases
      case 1
      with row have "c \<in> set processed \<or> (accepted headers r \<and> c = new_candidate imageMap user b d)"
        by blast
      then show ?thesis
        unfolding d_def by (auto intro: exI[of _ 0])
    next
      case (2 j)
      then show ?thesis
        by (auto intro!: exI[of _ "Suc j"])
    qed
  qed
  from d1 IH A B show ?case by blast
qed

subsection \<open>A pass over rows that are all in the collection\<close>

lemma second_pass:
  assumes "\<forall>j<length rs. accepted headers (rs ! j) \<longrightarrow>
             truthy (d_email (row_draft headers (rs ! j))) \<and>
             (\<exists>x. findOne docs (d_email (row_draft headers (rs ! j))) = Some x \<and>
                  \<not> (truthy (imap_get imageMap (b + j)) \<and> \<not> truthy (photo x)))"
  shows "\<exists>errors'. process_rows imageMap user headers b rs (docs, processed, errors)
            = (docs, processed, errors')
          \<and> set errors \<subseteq> set errors'
          \<and> (\<forall>j<length rs. accepted headers (rs ! j) \<longrightarrow>
                ''Skipped: Email '' @ js_String (d_email (row_draft headers (rs ! j)))
                  @ '' already exists'' \<in> set errors')"
  using assms
proof (induction rs arbitrary: b errors)
  case Nil
  then show ?case by simp
next
  case (Cons r rs)
  define d where "d = row_draft headers r"
  have "\<exists>e1. process_row imageMap user headers b r (docs, processed, errors) = (docs, processed, e1)
          \<and> set errors \<subseteq> set e1
          \<and> (accepted headers r \<longrightarrow>
               ''Skipped: Email '' @ js_String (d_email d) @ '' already exists'' \<in> set e1)"
  proof (cases "accepted headers r")
    case False
    from process_row_not_accepted[OF False, of imageMap user b docs processed errors]
    show ?thesis using False by auto
  next
    case True
    with Cons.prems[rule_format, of 0] obtain x where
      x: "truthy (d_email d)" "findOne docs (d_email d) = Some x"
         "\<not> (truthy (imap_get imageMap b) \<and> \<not> truthy (photo x))"
      unfolding d_def by auto
    from process_row_duplicate[OF True d_def x, of user processed errors]
    show ?thesis by auto
  qed
  then obtain e1 where step: "process_row imageMap user headers b r (docs, processed, errors) = (docs, processed, e1)"
    and e1: "set errors \<subseteq> set e1"
    and msg: "accepted headers r \<longrightarrow>
               ''Skipped: Email '' @ js_String (d_email d) @ '' already exists'' \<in> set e1"
    by blast
  have prem: "\<forall>j<length rs. accepted headers (rs ! j) \<longrightarrow>
             truthy (d_email (row_draft headers (rs ! j))) \<and>
             (\<exists>x. findOne docs (d_email (row_draft headers (rs ! j))) = Some x \<and>
                  \<not> (truthy (imap_get imageMap (b + 1 + j)) \<and> \<not> truthy (photo x)))"
  proof (intro allI impI)
    fix j assume "j < length rs" "accepted headers (rs ! j)"
    with Cons.prems[rule_format, of "Suc j"]
    show "truthy (d_email (row_draft headers (rs ! j))) \<and>
             (\<exists>x. findOne docs (d_email (row_draft headers (rs ! j))) = Some x \<and>
                  \<not> (truthy (imap_get imageMap (b + 1 + j)) \<and> \<not> truthy (photo x)))"
      by simp
  qed
  from Cons.IH[OF prem, of e1] obtain e2 where
    rest: "process_rows imageMap user headers (b + 1) rs (docs, processed, e1) = (docs, processed, e2)"
    and e2: "set e1 \<subseteq> set e2"
    and msgs: "\<forall>j<length rs. accepted headers (rs ! j) \<longrightarrow>
                ''Skipped: Email '' @ js_String (d_email (row_draft headers (rs ! j)))
                  @ '' already exists'' \<in> set e2"
    by blast
  have all: "\<forall>j<length (r # rs). accepted headers ((r # rs) ! j) \<longrightarrow>
                ''Skipped: Email '' @ js_String (d_email (row_draft headers ((r # rs) ! j)))
                  @ '' already exists'' \<in> set e2"
  proof (intro allI impI)
    fix j assume j: "j < length (r # rs)" and acc: "accepted headers ((r # rs) ! j)"
    show "''Skipped: Email '' @ js_String (d_email (row_draft headers ((r # rs) ! j)))
                  @ '' already exists'' \<in> set e2"
    proof (cases j)
      case 0
      with acc msg e2 show ?thesis unfolding d_def by auto
    next
      case (Suc j')
      with j acc msgs[rule_format, of j'] show ?thesis by simp
    qed
  qed
  from step rest e1 e2 all show ?case
    by (intro exI[of _ e2]) auto
qed

subsection \<open>The batch insert\<close>

lemma findOne_append:
  "findOne (docs @ [c]) e =
     (case findOne docs e of Some x \<Rightarrow> Some x | None \<Rightarrow> if email c = e then Some c else None)"
  unfolding findOne_def by (induction docs) auto

lemma insertMany_ids:
  assumes "insertMany docs ps = (docs', Inr ())"
  shows "\<forall>c\<in>set ps. doc_id c = None \<or> doc_id c \<notin> set (map doc_id docs)"
  using assms
proof (induction ps arbitrary: docs)
  case Nil
  then show ?case by simp
next
  case (Cons p ps)
  show ?case
  proof (cases "doc_id p")
    case None
    with Cons.prems have "insertMany (docs @ [p\<lparr>doc_id := Some (fresh_id docs)\<rparr>]) ps = (docs', Inr ())"
      by simp
    from Cons.IH[OF this] None show ?thesis by auto
  next
    case (Some k)
    with Cons.prems have k: "Some k \<notin> set (map doc_id docs)"
      and "insertMany (docs @ [p]) ps = (docs', Inr ())"
      by (auto split: if_splits)
    from Cons.IH[OF this(2)] Some k show ?thesis by auto
  qed
qed

lemma insertMany_keeps_found:
  assumes "insertMany docs ps = (docs', res)" and "findOne docs e = Some x"
  shows "findOne docs' e = Some x"
  using assms
proof (induction ps arbitrary: docs)
  case Nil
  then show ?case by simp
next
  case (Cons p ps)
  show ?case
  proof (cases "doc_id p")
    case None
    with Cons.prems have "insertMany (docs @ [p\<lparr>doc_id := Some (fresh_id docs)\<rparr>]) ps = (docs', res)"
      by simp
    from Cons.IH[OF this] Cons.prems(2) show ?thesis
      by (simp add: findOne_append)
  next
    case (Some k)
    show ?thesis
    proof (cases "Some k \<in> set (map doc_id docs)")
      case True
      with Some Cons.prems show ?thesis by simp
    next
      case False
      with Some Cons.prems have "insertMany (docs @ [p]) ps = (docs', res)"
        by simp
      from Cons.IH[OF this] Cons.prems(2) show ?thesis
        by (simp add: findOne_append)
    qed
  qed
qed

lemma insertMany_finds_inserted:
  assumes "insertMany docs ps = (docs', Inr ())" and "findOne docs e = None"
    and "c \<in> set ps" and "email c = e"
  shows "\<exists>x c'. findOne docs' e = Some x \<and> c' \<in> set ps \<and> email c' = e \<and> photo x = photo c'"
  using assms
proof (induction ps arbitrary: docs)
  case Nil
  then show ?case by simp
next
  case (Cons p ps)
  define p' where "p' = (case doc_id p of None \<Rightarrow> p\<lparr>doc_id := Some (fresh_id docs)\<rparr> | Some k \<Rightarrow> p)"
  have p': "email p' = email p" "photo p' = photo p"
    by (auto simp: p'_def split: option.splits)
  have rest: "insertMany (docs @ [p']) ps = (docs', Inr ())"
    using Cons.prems(1) by (auto simp: p'_def split: option.splits if_splits)
  show ?case
  proof (cases "email p = e")
    case True
    then have "findOne (docs @ [p']) e = Some p'"
      using Cons.prems(2) p' by (simp add: findOne_append)
    from insertMany_keeps_found[OF rest this] True p' show ?thesis
      by (intro exI[of _ p'] exI[of _ p]) simp
  next
    case False
    then have none: "findOne (docs @ [p']) e = None"
      using Cons.prems(2) p' by (simp add: findOne_append)
    have "c \<in> set ps"
      using Cons.prems(3,4) False by auto
    from Cons.IH[OF rest none this Cons.prems(4)] show ?thesis
      by auto
  qed
qed

subsection \<open>The rows of the image map\<close>

lemma image_step_dom:
  assumes "image_step e t img (m, fs) = Inr (m', fs')" and "\<forall>i. m i \<noteq> Some []"
  shows "dom m' = dom m \<union> (if skipped img then {} else {img_row img})
         \<and> (\<forall>i. m' i \<noteq> Some [])"
  using assms
  by (auto simp: image_step_def Let_def skipped_def split: if_splits option.splits simp del: set_simps)

lemma extract_images_dom:
  assumes "extract_images e now k imgs m fs = (fs', Inr m')" and "\<forall>i. m i \<noteq> Some []"
  shows "dom m' = dom m \<union> {img_row img | img. img \<in> set imgs \<and> \<not> skipped img}
         \<and> (\<forall>i. m' i \<noteq> Some [])"
  using assms
proof (induction imgs arbitrary: k m fs)
  case Nil
  then show ?case by simp
next
  case (Cons img imgs)
  show ?case
  proof (cases "image_step e (now k) img (m, fs)")
    case (Inl err)
    with Cons.prems show ?thesis by simp
  next
    case (Inr st)
    obtain m1 fs1 where st: "st = (m1, fs1)" by (cases st)
    have step: "image_step e (now k) img (m, fs) = Inr (m1, fs1)"
      using Inr st by simp
    have rest: "extract_images e now (k + 1) imgs m1 fs1 = (fs', Inr m')"
      using Cons.prems(1) step by simp
    from image_step_dom[OF step Cons.prems(2)]
    have d1: "dom m1 = dom m \<union> (if skipped img then {} else {img_row img})"
      and n1: "\<forall>i. m1 i \<noteq> Some []"
      by blast+
    from Cons.IH[OF rest n1] d1 show ?thesis
      by auto
  qed
qed

lemma imap_get_truthy:
  assumes "\<forall>i. m i \<noteq> Some []"
  shows "truthy (imap_get m i) \<longleftrightarrow> i \<in> dom m"
  using assms[rule_format, of i] by (cases "m i") (auto simp: imap_get_def)

lemma same_images_same_rows:
  assumes "extract_images e now 0 imgs Map.empty fs = (fs', Inr m)"
    and "extract_images e' now' 0 imgs Map.empty gs = (gs', Inr m')"
  shows "truthy (imap_get m i) \<longleftrightarrow> truthy (imap_get m' i)"
proof -
  from extract_images_dom[OF assms(1)] extract_images_dom[OF assms(2)]
  have "dom m = dom m'" "\<forall>i. m i \<noteq> Some []" "\<forall>i. m' i \<noteq> Some []"
    by auto
  then show ?thesis
    using imap_get_truthy[of m i] imap_get_truthy[of m' i] by simp
qed

subsection \<open>The handler around the loop\<close>

lemma code_error_500: "code error_500 = 500"
  by (simp add: error_500_def)

lemma upload_ok:
  assumes "upload e req w = (w', r)" and "code r = 200"
    and "parsed req = Some wb" and "find_header (wb_rows wb) = Some (h, hs)"
  shows "\<exists>fs1 m D P E.
           extract_images e (clock req) 0 (wb_images wb) Map.empty (files w) = (fs1, Inr m)
         \<and> process_rows m (uid req) hs (h + 1) (drop (h + 1) (wb_rows wb)) (docs_of w, [], []) = (D, P, E)
         \<and> ((P \<noteq> [] \<and> insertMany D P = (docs_of w', Inr ())) \<or> (P = [] \<and> docs_of w' = D))"
proof (cases "file_path req")
  case None
  with assms(1,2) show ?thesis by (auto simp: upload_def)
next
  case (Some p)
  obtain fs1 res where ex: "extract_images e (clock req) 0 (wb_images wb) Map.empty (files w) = (fs1, res)"
    by (cases "extract_images e (clock req) 0 (wb_images wb) Map.empty (files w)") auto
  show ?thesis
  proof (cases res)
    case (Inl err)
    with assms Some ex show ?thesis by (auto simp: upload_def code_error_500)
  next
    case (Inr m)
    obtain D P E where loop:
      "process_rows m (uid req) hs (h + 1) (drop (h + 1) (wb_rows wb)) (docs_of w, [], []) = (D, P, E)"
      by (cases "process_rows m (uid req) hs (h + 1) (drop (h + 1) (wb_rows wb)) (docs_of w, [], [])") auto
    obtain D' ires where ins: "(if P \<noteq> [] then insertMany D P else (D, Inr ())) = (D', ires)"
      by (cases "if P \<noteq> [] then insertMany D P else (D, Inr ())") auto
    have "(P \<noteq> [] \<and> insertMany D P = (docs_of w', Inr ())) \<or> (P = [] \<and> docs_of w' = D)"
      using assms Some ex Inr loop ins
      by (cases ires; cases "unlinkSync e fs1 p")
         (auto simp: upload_def Let_def code_error_500 split: if_splits)
    with ex Inr loop show ?thesis by blast
  qed
qed

lemma upload_nothing_staged:
  assumes "parsed req = Some wb" and "find_header (wb_rows wb) = Some (h, hs)"
    and "\<And>fs1 m. extract_images e (clock req) 0 (wb_images wb) Map.empty (files w) = (fs1, Inr m) \<Longrightarrow>
           \<exists>E. process_rows m (uid req) hs (h + 1) (drop (h + 1) (wb_rows wb)) (docs_of w, [], [])
                 = (docs_of w, [], E) \<and> Q E"
  shows "docs_of (fst (upload e req w)) = docs_of w
       \<and> (code (snd (upload e req w)) = 200 \<longrightarrow>
            (\<exists>E. body (snd (upload e req w)) = Report ''No valid candidates found in the file'' 0 E \<and> Q E))"
proof (cases "file_path req")
  case None
  then show ?thesis by (simp add: upload_def)
next
  case (Some p)
  obtain fs1 res where ex: "extract_images e (clock req) 0 (wb_images wb) Map.empty (files w) = (fs1, res)"
    by (cases "extract_images e (clock req) 0 (wb_images wb) Map.empty (files w)") auto
  show ?thesis
  proof (cases res)
    case (Inl err)
    with assms(1) Some ex show ?thesis by (simp add: upload_def code_error_500)
  next
    case (Inr m)
    from assms(3)[OF ex[unfolded Inr]] obtain E where
      loop: "process_rows m (uid req) hs (h + 1) (drop (h + 1) (wb_rows wb)) (docs_of w, [], [])
                 = (docs_of w, [], E)" and "Q E"
      by blast
    then show ?thesis
      using assms(1,2) Some ex Inr
      by (cases "unlinkSync e fs1 p") (auto simp: upload_def Let_def code_error_500)
  qed
qed

lemma upload_success:
  assumes "file_path req = Some p" and "parsed req = Some wb"
    and "extract_images e (clock req) 0 (wb_images wb) Map.empty (files w) = (fs1, Inr m)"
    and "find_header (wb_rows wb) = Some (h, hs)"
    and "process_rows m (uid req) hs (h + 1) (drop (h + 1) (wb_rows wb)) (docs_of w, [], []) = (D, P, E)"
    and "(if P \<noteq> [] then insertMany D P else (D, Inr ())) = (D', Inr ())"
    and "unlinkSync e fs1 p = Inr fs2"
  shows "upload e req w =
           (\<lparr> files = fs2, docs_of = D' \<rparr>,
            \<lparr> code = 200,
              body = Report (if P \<noteq> [] then ''File processed successfully''
                             else ''No valid candidates found in the file'') (length P) E \<rparr>)"
proof -
  let ?st = "process_rows m (uid req) hs (Suc h) (drop (Suc h) (wb_rows wb)) (docs_of w, [], [])"
  have st: "?st = (D, P, E)"
    using assms(5) by simp
  show ?thesis
  proof (cases "P = []")
    case True
    with assms(6) have "D' = D" by simp
    with True show ?thesis
      by (simp add: upload_def Let_def assms(1,2,3,4,7) st)
  next
    case False
    with assms(6) have "insertMany D P = (D', Inr ())" by simp
    with False show ?thesis
      by (simp add: upload_def Let_def assms(1,2,3,4,7) st)
  qed
qed

lemma js_or_photo_truthy: "truthy (js_or v (Str '''')) \<longleftrightarrow> truthy v"
  by (simp add: js_or_def)

text \<open>
  C2, as the code has it. Take a collection whose documents all carry an \<open>_id\<close>, a first
  upload that is answered with 200, and a second upload of the same workbook against the
  collection the first one left. If every row that passes validation has an email, and no
  two such rows have the same email, then the second upload leaves the collection exactly
  as it found it, and when it is answered with 200 it reports no added record and a
  message \<open>Skipped: Email <email> already exists\<close> for every row that passes validation.
\<close>

theorem second_upload_changes_nothing:
  assumes first: "upload e req w = (wa, ra)" and ok: "code ra = 200"
    and wb: "parsed req = Some wb" "parsed req' = Some wb"
    and hdr: "find_header (wb_rows wb) = Some (h, headers)"
    and rs: "rs = drop (h + 1) (wb_rows wb)"
    and ids: "\<forall>c\<in>set (docs_of w). doc_id c \<noteq> None"
    and emails: "\<forall>j<length rs. accepted headers (rs ! j) \<longrightarrow>
                   truthy (d_email (row_draft headers (rs ! j)))"
    and distinct: "\<forall>i<length rs. \<forall>j<length rs.
                     accepted headers (rs ! i) \<and> accepted headers (rs ! j) \<and>
                     d_email (row_draft headers (rs ! i)) = d_email (row_draft headers (rs ! j))
                     \<longrightarrow> i = j"
    and between: "docs_of w' = docs_of wa"
  shows "docs_of (fst (upload e' req' w')) = docs_of wa
       \<and> (code (snd (upload e' req' w')) = 200 \<longrightarrow>
            (\<exists>errs. body (snd (upload e' req' w'))
                      = Report ''No valid candidates found in the file'' 0 errs
                  \<and> (\<forall>j<length rs. accepted headers (rs ! j) \<longrightarrow>
                        ''Skipped: Email '' @ js_String (d_email (row_draft headers (rs ! j)))
                          @ '' already exists'' \<in> set errs)))"
proof -
  from upload_ok[OF first ok wb(1) hdr] obtain fs1 m1 D P E where
    ex1: "extract_images e (clock req) 0 (wb_images wb) Map.empty (files w) = (fs1, Inr m1)"
    and loop1: "process_rows m1 (uid req) headers (h + 1) rs (docs_of w, [], []) = (D, P, E)"
    and ins1: "(P \<noteq> [] \<and> insertMany D P = (docs_of wa, Inr ())) \<or> (P = [] \<and> docs_of wa = D)"
    unfolding rs by blast
  have noNone: "None \<notin> set (map doc_id (docs_of w))"
    using ids by auto
  have sameids: "map doc_id D = map doc_id (docs_of w)"
    using process_rows_frame[OF loop1] by simp
  have fresh: "\<forall>c\<in>set P. doc_id c \<notin> set (map doc_id (docs_of w))"
  proof (cases "P = []")
    case True
    then show ?thesis by simp
  next
    case False
    with ins1 have "insertMany D P = (docs_of wa, Inr ())" by simp
    from insertMany_ids[OF this] sameids noNone show ?thesis
      by metis
  qed
  from first_pass[OF loop1 fresh]
  have D: "D = docs_of w"
    and dup: "\<And>j x. j < length rs \<Longrightarrow> accepted headers (rs ! j) \<Longrightarrow>
                truthy (d_email (row_draft headers (rs ! j))) \<Longrightarrow>
                findOne (docs_of w) (d_email (row_draft headers (rs ! j))) = Some x \<Longrightarrow>
                \<not> (truthy (imap_get m1 (h + 1 + j)) \<and> \<not> truthy (photo x))"
    and new: "\<And>j. j < length rs \<Longrightarrow> accepted headers (rs ! j) \<Longrightarrow>
                findOne (docs_of w) (d_email (row_draft headers (rs ! j))) = None \<Longrightarrow>
                new_candidate m1 (uid req) (h + 1 + j) (row_draft headers (rs ! j)) \<in> set P"
    and only: "\<And>c. c \<in> set P \<Longrightarrow>
                \<exists>j<length rs. accepted headers (rs ! j) \<and>
                   c = new_candidate m1 (uid req) (h + 1 + j) (row_draft headers (rs ! j))"
    by auto
  have stored: "\<exists>x. findOne (docs_of w') (d_email (row_draft headers (rs ! j))) = Some x \<and>
                  \<not> (truthy (imap_get m1 (h + 1 + j)) \<and> \<not> truthy (photo x))"
    if j: "j < length rs" and acc: "accepted headers (rs ! j)" for j
  proof -
    let ?e = "d_email (row_draft headers (rs ! j))"
    have te: "truthy ?e"
      using emails j acc by blast
    show ?thesis
    proof (cases "findOne (docs_of w) ?e")
      case (Some x)
      have "findOne (docs_of wa) ?e = Some x"
      proof (cases "P = []")
        case True
        with ins1 D Some show ?thesis by simp
      next
        case False
        with ins1 have "insertMany D P = (docs_of wa, Inr ())" by simp
        from insertMany_keeps_found[OF this] Some D show ?thesis by simp
      qed
      with dup[OF j acc te Some] between show ?thesis by simp
    next
      case None
      let ?c = "new_candidate m1 (uid req) (h + 1 + j) (row_draft headers (rs ! j))"
      have cP: "?c \<in> set P"
        using new[OF j acc None] .
      then have "P \<noteq> []" by auto
      with ins1 have ins: "insertMany D P = (docs_of wa, Inr ())" by simp
      have "email ?c = ?e"
        by (simp add: new_candidate_def)
      from insertMany_finds_inserted[OF ins None[folded D] cP this]
      obtain x c' where x: "findOne (docs_of wa) ?e = Some x" and c': "c' \<in> set P"
        and ec': "email c' = ?e" and px: "photo x = photo c'"
        by blast
      from only[OF c'] obtain i where i: "i < length rs" "accepted headers (rs ! i)"
        and ci: "c' = new_candidate m1 (uid req) (h + 1 + i) (row_draft headers (rs ! i))"
        by blast
      have "d_email (row_draft headers (rs ! i)) = ?e"
        using ec' ci by (simp add: new_candidate_def)
      with distinct i j acc have "i = j" by blast
      with ci px have "photo x = js_or (imap_get m1 (h + 1 + j)) (Str '''')"
        by (simp add: new_candidate_def)
      then have "truthy (photo x) \<longleftrightarrow> truthy (imap_get m1 (h + 1 + j))"
        by (simp add: js_or_photo_truthy)
      with x between show ?thesis by simp
    qed
  qed
  have second: "\<exists>E'. process_rows m2 (uid req') headers (h + 1) (drop (h + 1) (wb_rows wb)) (docs_of w', [], [])
                 = (docs_of w', [], E')
             \<and> (\<forall>j<length rs. accepted headers (rs ! j) \<longrightarrow>
                        ''Skipped: Email '' @ js_String (d_email (row_draft headers (rs ! j)))
                          @ '' already exists'' \<in> set E')"
    if ex2: "extract_images e' (clock req') 0 (wb_images wb) Map.empty (files w') = (fs2, Inr m2)"
    for fs2 m2
  proof -
    have same: "truthy (imap_get m2 i) \<longleftrightarrow> truthy (imap_get m1 i)" for i
      using same_images_same_rows[OF ex2 ex1] .
    have "\<forall>j<length rs. accepted headers (rs ! j) \<longrightarrow>
             truthy (d_email (row_draft headers (rs ! j))) \<and>
             (\<exists>x. findOne (docs_of w') (d_email (row_draft headers (rs ! j))) = Some x \<and>
                  \<not> (truthy (imap_get m2 (h + 1 + j)) \<and> \<not> truthy (photo x)))"
      using emails stored same by blast
    from second_pass[OF this, of "uid req'" "[]" "[]"] show ?thesis
      unfolding rs by blast
  qed
  from upload_nothing_staged[of req' wb h headers e' w'
         "\<lambda>E'. \<forall>j<length rs. accepted headers (rs ! j) \<longrightarrow>
                        ''Skipped: Email '' @ js_String (d_email (row_draft headers (rs ! j)))
                          @ '' already exists'' \<in> set E'", OF wb(2) hdr second]
  show ?thesis
    using between by simp
qed

subsection \<open>The intake workbook, uploaded twice\<close>

lemma intake_header:
  "find_header (wb_rows intake) = Some (2, [''name'', ''email'', ''phone''])"
  unfolding intake_def by code_simp

lemma intake_rows:
  "drop (2 + 1) (wb_rows intake) = [[Str ''Alice'', Str ''alice@x.com'', Str ''555-123-4567''], [Str ''Carol'']]"
  by (simp add: intake_def)

lemma intake_rows3:
  "drop 3 (wb_rows intake) = [[Str ''Alice'', Str ''alice@x.com'', Str ''555-123-4567''], [Str ''Carol'']]"
  by (simp add: intake_def)

lemma alice_row_draft:
  "row_draft [''name'', ''email'', ''phone''] [Str ''Alice'', Str ''alice@x.com'', Str ''555-123-4567'']
     = \<lparr> d_name = Str ''Alice'', d_email = Str ''alice@x.com'', d_phone = Str ''555-123-4567'',
         d_exp = Undef, d_age = Undef \<rparr>"
  unfolding row_draft_def alice_item by (rule alice_draft)

lemma alice_accepted:
  "accepted [''name'', ''email'', ''phone''] [Str ''Alice'', Str ''alice@x.com'', Str ''555-123-4567'']"
  by (simp add: accepted_def alice_row_draft)

lemma carol_not_accepted: "\<not> accepted [''name'', ''email'', ''phone''] [Str ''Carol'']"
  by (simp add: accepted_def carol_draft)

lemma alice_staged:
  "new_candidate [3 \<mapsto> ''/uploads/candidates/photo-1000-3.png''] ''u1'' 3
     \<lparr> d_name = Str ''Alice'', d_email = Str ''alice@x.com'', d_phone = Str ''555-123-4567'',
       d_exp = Undef, d_age = Undef \<rparr> = inserted_alice\<lparr>doc_id := None\<rparr>"
  by (simp add: new_candidate_def inserted_alice_def num_or_zero_def imap_get_def js_or_def)

lemma carol_skipped:
  "process_row imageMap ''u1'' [''name'', ''email'', ''phone''] 4 [Str ''Carol''] (docs, processed, errors)
     = (docs, processed, errors @ [''Skipped: Missing Name/Email. Found: Carol, N/A''])"
  using carol_draft carol_json
  by (simp add: process_row_def Let_def row_draft_def carol_item js_or_def)

lemma intake_first_pass:
  "process_rows [3 \<mapsto> ''/uploads/candidates/photo-1000-3.png''] ''u1'' [''name'', ''email'', ''phone''] 3
     [[Str ''Alice'', Str ''alice@x.com'', Str ''555-123-4567''], [Str ''Carol'']] ([], [], [])
   = ([], [inserted_alice\<lparr>doc_id := None\<rparr>], [''Skipped: Missing Name/Email. Found: Carol, N/A''])"
proof -
  have "process_row [3 \<mapsto> ''/uploads/candidates/photo-1000-3.png''] ''u1'' [''name'', ''email'', ''phone''] 3
     [Str ''Alice'', Str ''alice@x.com'', Str ''555-123-4567''] ([], [], [])
       = ([], [inserted_alice\<lparr>doc_id := None\<rparr>], [])"
    using process_row_new[OF alice_accepted alice_row_draft [symmetric], of "[]"
            "[3 \<mapsto> ''/uploads/candidates/photo-1000-3.png'']" "''u1''" 3 "[]" "[]"]
    by (simp add: findOne_def alice_staged)
  then show ?thesis
    by (simp add: carol_skipped)
qed

lemma intake_insert:
  "insertMany [] [inserted_alice\<lparr>doc_id := None\<rparr>] = ([inserted_alice], Inr ())"
  by (simp add: fresh_id_def inserted_alice_def)

lemma intake_first_upload:
  "upload dev_env intake_upload intake_world
     = (\<lparr> files = [''/app/uploads/candidates/photo-1000-3.png'' \<mapsto> [0x89, 0x50, 0x4E, 0x47, 0x0D, 0x0A]],
          docs_of = [inserted_alice] \<rparr>,
        \<lparr> code = 200,
          body = Report ''File processed successfully'' 1
                   [''Skipped: Missing Name/Email. Found: Carol, N/A''] \<rparr>)"
proof -
  have im: "wb_images intake = [png_as_jpg]"
    by (simp add: intake_def)
  have un: "unlinkSync dev_env
              ([''/app/uploads/candidates-900-intake.xlsx'' \<mapsto> [0x50, 0x4B],
                ''/app/uploads/candidates/photo-1000-3.png'' \<mapsto> [0x89, 0x50, 0x4E, 0x47, 0x0D, 0x0A]])
              ''uploads/candidates-900-intake.xlsx''
            = Inr [''/app/uploads/candidates/photo-1000-3.png'' \<mapsto> [0x89, 0x50, 0x4E, 0x47, 0x0D, 0x0A]]"
    by (auto simp: unlinkSync_def resolve_def dev_env_def)
  have ex: "extract_images dev_env (clock intake_upload) 0 (wb_images intake) Map.empty (files intake_world)
      = ([''/app/uploads/candidates-900-intake.xlsx'' \<mapsto> [0x50, 0x4B],
          ''/app/uploads/candidates/photo-1000-3.png'' \<mapsto> [0x89, 0x50, 0x4E, 0x47, 0x0D, 0x0A]],
         Inr [3 \<mapsto> ''/uploads/candidates/photo-1000-3.png''])"
    using roster_images[of "files intake_world"] by (simp add: intake_upload_def im intake_world_def)
  have loop: "process_rows [3 \<mapsto> ''/uploads/candidates/photo-1000-3.png''] (uid intake_upload)
                [''name'', ''email'', ''phone''] (2 + 1) (drop (2 + 1) (wb_rows intake))
                (docs_of intake_world, [], [])
              = ([], [inserted_alice\<lparr>doc_id := None\<rparr>],
                 [''Skipped: Missing Name/Email. Found: Carol, N/A''])"
    using intake_first_pass
    by (simp add: intake_rows3 intake_upload_def intake_world_def del: process_rows.simps)
  have ins: "(if [inserted_alice\<lparr>doc_id := None\<rparr>] \<noteq> []
              then insertMany [] [inserted_alice\<lparr>doc_id := None\<rparr>] else ([], Inr ()))
             = ([inserted_alice], Inr ())"
    using intake_insert by simp
  show ?thesis
    using upload_success[OF _ _ ex intake_header loop ins un]
    by (simp add: intake_upload_def)
qed

lemma intake_second_pass:
  "process_rows [3 \<mapsto> ''/uploads/candidates/photo-1000-3.png''] ''u1'' [''name'', ''email'', ''phone''] 3
     [[Str ''Alice'', Str ''alice@x.com'', Str ''555-123-4567''], [Str ''Carol'']] ([inserted_alice], [], [])
   = ([inserted_alice], [],
      [''Skipped: Email alice@x.com already exists'', ''Skipped: Missing Name/Email. Found: Carol, N/A''])"
proof -
  have "process_row [3 \<mapsto> ''/uploads/candidates/photo-1000-3.png''] ''u1'' [''name'', ''email'', ''phone''] 3
     [Str ''Alice'', Str ''alice@x.com'', Str ''555-123-4567''] ([inserted_alice], [], [])
       = ([inserted_alice], [], [''Skipped: Email alice@x.com already exists''])"
    using process_row_duplicate[OF alice_accepted alice_row_draft [symmetric], of "[inserted_alice]"
            inserted_alice "[3 \<mapsto> ''/uploads/candidates/photo-1000-3.png'']" 3 "''u1''" "[]" "[]"]
    by (simp add: findOne_def inserted_alice_def)
  then show ?thesis
    by (simp add: carol_skipped)
qed

lemma intake_second_upload:
  "upload dev_env intake_upload intake_world_again
     = (\<lparr> files = [''/app/uploads/candidates/photo-1000-3.png'' \<mapsto> [0x89, 0x50, 0x4E, 0x47, 0x0D, 0x0A]],
          docs_of = [inserted_alice] \<rparr>,
        \<lparr> code = 200,
          body = Report ''No valid candidates found in the file'' 0
                   [''Skipped: Email alice@x.com already exists'',
                    ''Skipped: Missing Name/Email. Found: Carol, N/A''] \<rparr>)"
proof -
  have im: "wb_images intake = [png_as_jpg]"
    by (simp add: intake_def)
  have un: "unlinkSync dev_env
              ([''/app/uploads/candidates-900-intake.xlsx'' \<mapsto> [0x50, 0x4B],
                ''/app/uploads/candidates/photo-1000-3.png'' \<mapsto> [0x89, 0x50, 0x4E, 0x47, 0x0D, 0x0A]])
              ''uploads/candidates-900-intake.xlsx''
            = Inr [''/app/uploads/candidates/photo-1000-3.png'' \<mapsto> [0x89, 0x50, 0x4E, 0x47, 0x0D, 0x0A]]"
    by (auto simp: unlinkSync_def resolve_def dev_env_def)
  have ex: "extract_images dev_env (clock intake_upload) 0 (wb_images intake) Map.empty (files intake_world_again)
      = ([''/app/uploads/candidates-900-intake.xlsx'' \<mapsto> [0x50, 0x4B],
          ''/app/uploads/candidates/photo-1000-3.png'' \<mapsto> [0x89, 0x50, 0x4E, 0x47, 0x0D, 0x0A]],
         Inr [3 \<mapsto> ''/uploads/candidates/photo-1000-3.png''])"
    using roster_images[of "files intake_world_again"]
    by (simp add: intake_upload_def im intake_world_again_def)
  have loop: "process_rows [3 \<mapsto> ''/uploads/candidates/photo-1000-3.png''] (uid intake_upload)
                [''name'', ''email'', ''phone''] (2 + 1) (drop (2 + 1) (wb_rows intake))
                (docs_of intake_world_again, [], [])
              = ([inserted_alice], [],
                 [''Skipped: Email alice@x.com already exists'',
                  ''Skipped: Missing Name/Email. Found: Carol, N/A''])"
    using intake_second_pass
    by (simp add: intake_rows3 intake_upload_def intake_world_again_def del: process_rows.simps)
  have ins: "(if ([] :: candidate list) \<noteq> [] then insertMany [inserted_alice] [] else ([inserted_alice], Inr ()))
             = ([inserted_alice], Inr ())"
    by simp
  show ?thesis
    using upload_success[OF _ _ ex intake_header loop ins un]
    by (simp add: intake_upload_def)
qed

theorem second_upload_changes_nothing_witness:
  "code (snd (upload dev_env intake_upload intake_world)) = 200
   \<and> docs_of (fst (upload dev_env intake_upload intake_world)) = [inserted_alice]
   \<and> docs_of (fst (upload dev_env intake_upload intake_world_again)) = [inserted_alice]
   \<and> code (snd (upload dev_env intake_upload intake_world_again)) = 200
   \<and> (\<exists>errs. body (snd (upload dev_env intake_upload intake_world_again))
                 = Report ''No valid candidates found in the file'' 0 errs
             \<and> ''Skipped: Email alice@x.com already exists'' \<in> set errs)"
proof -
  let ?rs = "[[Str ''Alice'', Str ''alice@x.com'', Str ''555-123-4567''], [Str ''Carol'']]"
  let ?hs = "[''name'', ''email'', ''phone'']"
  have idx: "j = 0 \<or> j = 1" if "j < length ?rs" for j
    using that by auto
  have only0: "j = 0" if "j < length ?rs" "accepted ?hs (?rs ! j)" for j
    using idx[OF that(1)] that(2) carol_not_accepted by auto
  have emails: "\<forall>j<length ?rs. accepted ?hs (?rs ! j) \<longrightarrow> truthy (d_email (row_draft ?hs (?rs ! j)))"
  proof (intro allI impI)
    fix j assume "j < length ?rs" "accepted ?hs (?rs ! j)"
    then have "j = 0" by (rule only0)
    then show "truthy (d_email (row_draft ?hs (?rs ! j)))"
      by (simp add: alice_row_draft)
  qed
  have distinct: "\<forall>i<length ?rs. \<forall>j<length ?rs. accepted ?hs (?rs ! i) \<and> accepted ?hs (?rs ! j) \<and>
                     d_email (row_draft ?hs (?rs ! i)) = d_email (row_draft ?hs (?rs ! j)) \<longrightarrow> i = j"
    using only0 by blast
  have code2: "code (snd (upload dev_env intake_upload intake_world_again)) = 200"
    by (simp add: intake_second_upload)
  have "docs_of (fst (upload dev_env intake_upload intake_world_again)) = [inserted_alice]
       \<and> (code (snd (upload dev_env intake_upload intake_world_again)) = 200 \<longrightarrow>
            (\<exists>errs. body (snd (upload dev_env intake_upload intake_world_again))
                      = Report ''No valid candidates found in the file'' 0 errs
                  \<and> (\<forall>j<length ?rs. accepted ?hs (?rs ! j) \<longrightarrow>
                        ''Skipped: Email '' @ js_String (d_email (row_draft ?hs (?rs ! j)))
                          @ '' already exists'' \<in> set errs)))"
    using second_upload_changes_nothing[OF intake_first_upload _ _ _ intake_header intake_rows [symmetric]
            _ emails distinct, of intake_upload intake_world_again dev_env]
    by (simp add: intake_upload_def intake_world_def intake_world_again_def)
  with code2 obtain errs where
    a: "docs_of (fst (upload dev_env intake_upload intake_world_again)) = [inserted_alice]"
    and b: "body (snd (upload dev_env intake_upload intake_world_again))
              = Report ''No valid candidates found in the file'' 0 errs"
    and c: "\<forall>j<length ?rs. accepted ?hs (?rs ! j) \<longrightarrow>
                        ''Skipped: Email '' @ js_String (d_email (row_draft ?hs (?rs ! j)))
                          @ '' already exists'' \<in> set errs"
    by blast
  from c[rule_format, of 0] alice_accepted alice_row_draft
  have "''Skipped: Email alice@x.com already exists'' \<in> set errs"
    by simp
  with a b code2 show ?thesis
    by (simp add: intake_first_upload)
qed

subsection \<open>A phone list, uploaded twice\<close>

lemma phone_header: "find_header (wb_rows phone_list) = Some (2, [''name'', ''phone''])"
  unfolding phone_list_def by code_simp

lemma phone_rows: "drop 3 (wb_rows phone_list) = [[Str ''Bob'', Str ''555-987-6543'']]"
  by (simp add: phone_list_def)

lemma bob_draft:
  "row_draft [''name'', ''phone''] [Str ''Bob'', Str ''555-987-6543'']
     = \<lparr> d_name = Str ''Bob'', d_email = Undef, d_phone = Str ''555-987-6543'',
         d_exp = Undef, d_age = Undef \<rparr>"
  by (simp add: row_draft_def fallback_def compositeString_def js_or_def trim_def is_space_def
        map_synonyms_def get_prop_def)

lemma bob_staged:
  "process_rows Map.empty ''u1'' [''name'', ''phone''] 3 [[Str ''Bob'', Str ''555-987-6543'']] (docs, [], [])
     = (docs, [bob], [])"
proof -
  have acc: "accepted [''name'', ''phone''] [Str ''Bob'', Str ''555-987-6543'']"
    by (simp add: accepted_def bob_draft)
  have "new_candidate Map.empty ''u1'' 3
          \<lparr> d_name = Str ''Bob'', d_email = Undef, d_phone = Str ''555-987-6543'',
            d_exp = Undef, d_age = Undef \<rparr> = bob"
    by (simp add: new_candidate_def bob_def num_or_zero_def imap_get_def js_or_def)
  then show ?thesis
    using process_row_new[OF acc bob_draft [symmetric], of docs Map.empty "''u1''" 3 "[]" "[]"]
    by simp
qed

lemma phone_unlink:
  "unlinkSync dev_env [''/app/uploads/candidates-900-phones.xlsx'' \<mapsto> [0x50, 0x4B]]
     ''uploads/candidates-900-phones.xlsx'' = Inr Map.empty"
  by (auto simp: unlinkSync_def resolve_def dev_env_def)

text \<open>
  C2, as stated, fails on rows that have a phone and no email: the duplicate check looks
  records up by email only, so the second upload of the phone list inserts Bob again and
  reports one added record.
\<close>

theorem second_upload_inserts_phone_only_row:
  "snd (upload dev_env phone_upload phone_world)
     = \<lparr> code = 200, body = Report ''File processed successfully'' 1 [] \<rparr>
   \<and> docs_of (fst (upload dev_env phone_upload phone_world)) = docs_of phone_world_again
   \<and> snd (upload dev_env phone_upload phone_world_again)
     = \<lparr> code = 200, body = Report ''File processed successfully'' 1 [] \<rparr>
   \<and> docs_of (fst (upload dev_env phone_upload phone_world_again))
     = [bob\<lparr>doc_id := Some 1\<rparr>, bob\<lparr>doc_id := Some 2\<rparr>]
   \<and> docs_of (fst (upload dev_env phone_upload phone_world_again)) \<noteq> docs_of phone_world_again"
proof -
  have im: "wb_images phone_list = []"
    by (simp add: phone_list_def)
  have i1: "insertMany [] [bob] = ([bob\<lparr>doc_id := Some 1\<rparr>], Inr ())"
    by (simp add: fresh_id_def bob_def)
  have i2: "insertMany [bob\<lparr>doc_id := Some 1\<rparr>] [bob]
              = ([bob\<lparr>doc_id := Some 1\<rparr>, bob\<lparr>doc_id := Some 2\<rparr>], Inr ())"
    by (simp add: fresh_id_def bob_def)
  have ex: "extract_images dev_env (clock phone_upload) 0 (wb_images phone_list) Map.empty fs = (fs, Inr Map.empty)" for fs
    by (simp add: im)
  have l1: "process_rows Map.empty (uid phone_upload) [''name'', ''phone''] (2 + 1)
              (drop (2 + 1) (wb_rows phone_list)) (docs_of phone_world, [], []) = ([], [bob], [])"
    using bob_staged[of "[]"]
    by (simp add: phone_rows phone_upload_def phone_world_def del: process_rows.simps)
  have l2: "process_rows Map.empty (uid phone_upload) [''name'', ''phone''] (2 + 1)
              (drop (2 + 1) (wb_rows phone_list)) (docs_of phone_world_again, [], [])
            = ([bob\<lparr>doc_id := Some 1\<rparr>], [bob], [])"
    using bob_staged[of "[bob\<lparr>doc_id := Some 1\<rparr>]"]
    by (simp add: phone_rows phone_upload_def phone_world_again_def del: process_rows.simps)
  have j1: "(if [bob] \<noteq> [] then insertMany [] [bob] else ([], Inr ())) = ([bob\<lparr>doc_id := Some 1\<rparr>], Inr ())"
    using i1 by simp
  have j2: "(if [bob] \<noteq> [] then insertMany [bob\<lparr>doc_id := Some 1\<rparr>] [bob]
             else ([bob\<lparr>doc_id := Some 1\<rparr>], Inr ()))
            = ([bob\<lparr>doc_id := Some 1\<rparr>, bob\<lparr>doc_id := Some 2\<rparr>], Inr ())"
    using i2 by simp
  have u1: "unlinkSync dev_env (files phone_world) ''uploads/candidates-900-phones.xlsx'' = Inr Map.empty"
    using phone_unlink by (simp add: phone_world_def)
  have u2: "unlinkSync dev_env (files phone_world_again) ''uploads/candidates-900-phones.xlsx'' = Inr Map.empty"
    using phone_unlink by (simp add: phone_world_again_def)
  have a: "upload dev_env phone_upload phone_world
     = (\<lparr> files = Map.empty, docs_of = [bob\<lparr>doc_id := Some 1\<rparr>] \<rparr>,
        \<lparr> code = 200, body = Report ''File processed successfully'' 1 [] \<rparr>)"
    using upload_success[OF _ _ ex phone_header l1 j1 u1]
    by (simp add: phone_upload_def)
  have b: "upload dev_env phone_upload phone_world_again
     = (\<lparr> files = Map.empty, docs_of = [bob\<lparr>doc_id := Some 1\<rparr>, bob\<lparr>doc_id := Some 2\<rparr>] \<rparr>,
        \<lparr> code = 200, body = Report ''File processed successfully'' 1 [] \<rparr>)"
    using upload_success[OF _ _ ex phone_header l2 j2 u2]
    by (simp add: phone_upload_def)
  from a b show ?thesis
    by (simp add: phone_world_again_def)
qed

end
